theory Spec2Isabelle
  imports Main
begin

section \<open>Channel membership: \<open>Client.onChatEvent\<close> (network/bnet/bnet.go)\<close>

text \<open>
  A Go \<open>string\<close> is a byte sequence, modelled as \<open>string\<close> (a list of 8-bit
  characters). \<open>time.Time\<close> values are instants, modelled as integers; the instant that
  \<open>time.Now()\<close> returns inside a handler is an argument of the handler's model.
\<close>

type_synonym time = int

text \<open>
  The values of \<open>bncs.ChatEventType\<close> that \<open>onChatEvent\<close> switches on; every other
  value of the type is \<open>ChatEventOther n\<close>.
\<close>

datatype ChatEventType =
    ChatShowUser
  | ChatJoin
  | ChatLeave
  | ChatWhisper
  | ChatTalk
  | ChatBroadcast
  | ChatChannelInfo
  | ChatUserFlagsUpdate
  | ChatChannelFull
  | ChatChannelDoesNotExist
  | ChatChannelRestricted
  | ChatInfo
  | ChatError
  | ChatEmote
  | ChatEventOther nat

text \<open>The fields of \<open>bncs.ChatEvent\<close> that the handler reads (\<open>pkt.Type\<close>, ...).\<close>

record ChatEvent =
  pkt_Type :: ChatEventType
  pkt_UserFlags :: nat
  pkt_Ping :: nat
  pkt_Username :: string
  pkt_Text :: string
  pkt_ChannelFlags :: nat

text \<open>\<open>bnet.User\<close>, as the composite literal in \<open>onChatEvent\<close> builds it.\<close>

record User =
  Name :: string
  StatString :: string
  Flags :: nat
  Ping :: nat
  Joined :: time
  LastSeen :: time

text \<open>The notifications that \<open>onChatEvent\<close> fires on the event bus.\<close>

datatype event =
    Channel string nat
  | UserJoined User bool
  | UserUpdate User
  | UserLeft User
  | Chat User string ChatEventType
  | Whisper string string nat nat
  | JoinError string ChatEventType
  | SystemMessage string ChatEventType

text \<open>
  The chat state of \<open>Client\<close>, guarded by \<open>chatmut\<close>. \<open>users\<close> is a
  \<open>map[string]*User\<close>; only addresses of fresh values are ever stored, so a key is
  either absent (Go reads \<open>nil\<close>) or bound to a user. A \<open>nil\<close> map and an empty map
  read alike, and the handler allocates before its only insertion, so both are
  \<open>Map.empty\<close>.
\<close>

record ChatState =
  channel :: string
  users :: "string \<rightharpoonup> User"

text \<open>
  \<open>onChatEvent\<close>, one branch of the \<open>switch pkt.Type\<close> per conditional, in the source's
  order. \<open>ToLower\<close> stands for \<open>strings.ToLower\<close> of the Go library and \<open>now\<close> for the
  value of \<open>time.Now()\<close>. The result is the new chat state with the notifications fired,
  in order.
\<close>

definition onChatEvent ::
  "(string \<Rightarrow> string) \<Rightarrow> time \<Rightarrow> ChatEvent \<Rightarrow> ChatState \<Rightarrow> ChatState \<times> event list" where
  "onChatEvent ToLower now pkt b =
    (if pkt_Type pkt = ChatChannelInfo then
       (b\<lparr>channel := pkt_Text pkt, users := Map.empty\<rparr>,
        [Channel (pkt_Text pkt) (pkt_ChannelFlags pkt)])
     else if pkt_Type pkt = ChatShowUser \<or> pkt_Type pkt = ChatJoin then
       (let t = now;
            u = \<lparr>Name = pkt_Username pkt, StatString = pkt_Text pkt,
                 Flags = pkt_UserFlags pkt, Ping = pkt_Ping pkt,
                 Joined = t, LastSeen = t\<rparr>;
            p = users b (ToLower (pkt_Username pkt));
            u = (case p of None \<Rightarrow> u
                 | Some q \<Rightarrow> u\<lparr>Joined := Joined q, LastSeen := LastSeen q\<rparr>);
            b = b\<lparr>users := (users b)(ToLower (pkt_Username pkt) \<mapsto> u)\<rparr>
        in (case p of
              None \<Rightarrow> (b, [UserJoined u (pkt_Type pkt = ChatShowUser)])
            | Some q \<Rightarrow> (b, [UserUpdate u])))
     else if pkt_Type pkt = ChatUserFlagsUpdate then
       (case users b (ToLower (pkt_Username pkt)) of
          None \<Rightarrow> (b, [])
        | Some u \<Rightarrow>
            (let u = u\<lparr>Flags := pkt_UserFlags pkt\<rparr>
             in (b\<lparr>users := (users b)(ToLower (pkt_Username pkt) \<mapsto> u)\<rparr>,
                 [UserUpdate u])))
     else if pkt_Type pkt = ChatLeave then
       (let u = users b (ToLower (pkt_Username pkt));
            b = b\<lparr>users := (users b)(ToLower (pkt_Username pkt) := None)\<rparr>
        in (case u of None \<Rightarrow> (b, []) | Some q \<Rightarrow> (b, [UserLeft q])))
     else if pkt_Type pkt = ChatTalk \<or> pkt_Type pkt = ChatEmote then
       (case users b (ToLower (pkt_Username pkt)) of
          None \<Rightarrow> (b, [])
        | Some u \<Rightarrow>
            (let u = u\<lparr>LastSeen := now\<rparr>
             in (b\<lparr>users := (users b)(ToLower (pkt_Username pkt) \<mapsto> u)\<rparr>,
                 [Chat u (pkt_Text pkt) (pkt_Type pkt)])))
     else if pkt_Type pkt = ChatWhisper then
       (b, [Whisper (pkt_Username pkt) (pkt_Text pkt) (pkt_UserFlags pkt) (pkt_Ping pkt)])
     else if pkt_Type pkt = ChatChannelFull \<or> pkt_Type pkt = ChatChannelDoesNotExist
             \<or> pkt_Type pkt = ChatChannelRestricted then
       (b, [JoinError (pkt_Text pkt) (pkt_Type pkt)])
     else if pkt_Type pkt = ChatBroadcast \<or> pkt_Type pkt = ChatInfo
             \<or> pkt_Type pkt = ChatError then
       (b, [SystemMessage (pkt_Text pkt) (pkt_Type pkt)])
     else (b, []))"

section \<open>Packets, errors and the framed connection\<close>

text \<open>
  Byte arrays and slices (keys, salts, proofs, signatures) are lists of byte values.
\<close>

type_synonym bytes = "nat list"

text \<open>
  Go \<open>error\<close> values. The two sentinels that bnet.go names are constructors; the
  deadline error of a bounded read is \<open>ErrTimeout\<close>; every other error value
  (transport, file system, key decoding, classified result codes) is \<open>ErrOther n\<close>.
\<close>

datatype error =
    ErrInvalidServerSig
  | ErrPasswordVerification
  | ErrTimeout
  | ErrOther nat

text \<open>
  Result codes of the bncs package. The code only compares them with the success
  constants (and, for the logon proof, with \<open>LogonProofRequireEmail\<close>), so each type is the
  named constants plus one constructor for every other value.
\<close>

datatype AuthResult = AuthSuccess | AuthResultOther nat

datatype LogonResult = LogonSuccess | LogonResultOther nat

datatype LogonProofResult =
  LogonProofSuccess | LogonProofRequireEmail | LogonProofResultOther nat

datatype AccountCreateResult = AccountCreateSuccess | AccountCreateResultOther nat

datatype JoinChannelFlag = ChannelJoinFirst | JoinChannelFlagOther nat

record GameVersion =
  Product :: nat
  Version :: nat

text \<open>\<open>bncs.AuthInfoReq\<close>, with the fields that \<open>DefaultConfig\<close> sets.\<close>

record AuthInfoReq =
  PlatformCode :: string
  GameVersion :: GameVersion
  LanguageCode :: string
  TimeZoneBias :: nat
  MpqLocaleID :: nat
  UserLanguageID :: nat
  CountryAbbreviation :: string
  Country :: string

text \<open>Responses, with the fields that bnet.go reads.\<close>

record AuthInfoResp =
  ServerSignature :: bytes
  ValueString :: string
  MpqFileName :: string
  ServerToken :: nat

record AuthCheckResp =
  authCheck_Result :: AuthResult

record AuthAccountLogonResp =
  logon_Result :: LogonResult
  logon_Salt :: bytes
  logon_ServerKey :: bytes

record AuthAccountLogonProofResp =
  proof_Result :: LogonProofResult
  proof_ServerPasswordProof :: bytes

record AuthAccountCreateResp =
  create_Result :: AccountCreateResult

record EnterChatResp =
  chat_UniqueName :: string

text \<open>
  The packets of the bncs family that bnet.go sends or switches on; \<open>bncs_Other n\<close> is any
  other packet. The change-password responses carry the same result, salt, key and proof
  fields as the logon responses (bnet.go passes their \<open>Result\<close> to the same converters).
  Request constructors take the fields of the composite literal in the source, in order.
\<close>

datatype packet =
    bncs_Ping nat
  | bncs_KeepAlive
  | bncs_AuthInfoReq AuthInfoReq
  | bncs_AuthInfoResp AuthInfoResp
  | bncs_AuthCheckReq nat string nat nat "bytes list" string
  | bncs_AuthCheckResp AuthCheckResp
  | bncs_AuthAccountLogonReq bytes string
  | bncs_AuthAccountLogonResp AuthAccountLogonResp
  | bncs_AuthAccountLogonProofReq bytes
  | bncs_AuthAccountLogonProofResp AuthAccountLogonProofResp
  | bncs_AuthAccountCreateReq bytes bytes string
  | bncs_AuthAccountCreateResp AuthAccountCreateResp
  | bncs_AuthAccountChangePassReq bytes string
  | bncs_AuthAccountChangePassResp AuthAccountLogonResp
  | bncs_AuthAccountChangePassProofReq bytes bytes bytes
  | bncs_AuthAccountChangePassProofResp AuthAccountLogonProofResp
  | bncs_SetEmail string
  | bncs_NetGamePort nat
  | bncs_EnterChatReq
  | bncs_EnterChatResp EnterChatResp
  | bncs_JoinChannel JoinChannelFlag string
  | bncs_ChatCommand string
  | bncs_ChatEvent ChatEvent
  | bncs_Other nat

text \<open>The argument of \<open>NextPacket\<close>: \<open>network.NoTimeout\<close> or a number of seconds.\<close>

datatype timeout = NoTimeout | Timeout nat

record TCPAddr =
  IP :: bytes
  Port :: nat

text \<open>
  What a run does to the outside world, in order: the greeting byte written, each call of
  \<open>Send\<close> and \<open>SendRL\<close> with its packet, each call of \<open>NextPacket\<close> with its timeout,
  each packet handed to \<open>Fire\<close>, \<open>Close\<close>, \<open>srp.Free\<close>, \<open>SetConn\<close>, and the TCP
  connection being opened.
\<close>

datatype action =
    dialed TCPAddr
  | wrote_greeting
  | sent packet
  | sent_rl packet
  | waited timeout
  | fired packet
  | closed
  | freed
  | conn_set

text \<open>
  The connection and its peer. \<open>inbox\<close> is the script of the server: the results of the
  successive reads, a decoded packet or a read error. \<open>sends\<close> is the script of the
  transport for the successive writes (\<open>None\<close> for success; an exhausted script means
  success). \<open>trace\<close> records the actions so far, oldest first.
\<close>

record world =
  trace :: "action list"
  inbox :: "(error + packet) list"
  sends :: "error option list"

text \<open>
  A call returns a value (\<open>Ok\<close>), returns an error (\<open>Err\<close>), or never returns
  (\<open>Hang\<close>): an unbounded read from a peer that sends nothing more blocks forever.
\<close>

datatype 'a result = Ok 'a | Err error | Hang

text \<open>
  Modelled from the spec: the methods of \<open>network.BNCSConn\<close> and
  \<open>network.EventEmitter\<close>, whose source is not in the repository files at hand.
  \<open>Send\<close> serializes and writes one packet and fails with the transport's error;
  \<open>NextPacket\<close> blocks until a frame is decoded or the timeout elapses, and with the
  "no timeout" sentinel it blocks indefinitely; \<open>Fire\<close> hands the packet to the event bus
  (the callbacks registered there run outside this model); \<open>Close\<close> closes the socket.
\<close>

definition record_action :: "action \<Rightarrow> world \<Rightarrow> world" where
  "record_action a w = w\<lparr>trace := trace w @ [a]\<rparr>"

definition transmit :: "action \<Rightarrow> world \<Rightarrow> error option \<times> world" where
  "transmit a w =
     (case sends w of
        [] \<Rightarrow> (None, record_action a w)
      | r # rs \<Rightarrow> (r, record_action a (w\<lparr>sends := rs\<rparr>)))"

definition Send :: "packet \<Rightarrow> world \<Rightarrow> error option \<times> world" where
  "Send p w = transmit (sent p) w"

definition SendRL :: "packet \<Rightarrow> world \<Rightarrow> error option \<times> world" where
  "SendRL p w = transmit (sent_rl p) w"

definition NextPacket :: "timeout \<Rightarrow> world \<Rightarrow> packet result \<times> world" where
  "NextPacket t w =
     (case inbox w of
        [] \<Rightarrow> (case t of NoTimeout \<Rightarrow> (Hang, record_action (waited t) w)
                | Timeout n \<Rightarrow> (Err ErrTimeout, record_action (waited t) w))
      | Inl e # rs \<Rightarrow> (Err e, record_action (waited t) (w\<lparr>inbox := rs\<rparr>))
      | Inr p # rs \<Rightarrow> (Ok p, record_action (waited t) (w\<lparr>inbox := rs\<rparr>)))"

definition Fire :: "packet \<Rightarrow> world \<Rightarrow> world" where
  "Fire p w = record_action (fired p) w"

definition Close :: "world \<Rightarrow> world" where
  "Close w = record_action closed w"

section \<open>The handshake steps\<close>

text \<open>
  The loop of \<open>sendAuthInfo\<close>, entered with the result of the last \<open>NextPacket\<close>:
  \<^verbatim>\<open>for { if err != nil { return nil, err }
        switch p := pkt.(type) {
        case *bncs.Ping:         if _, err := conn.Send(p); err != nil { return nil, err }
        case *bncs.AuthInfoResp: return p, nil
        default:                 b.Fire(pkt) }
        pkt, err = conn.NextPacket(network.NoTimeout) }\<close>
  The cases of the type switch are the tests \<open>isPing\<close> and \<open>isAuthInfoResp\<close>.
\<close>

definition isPing :: "packet \<Rightarrow> bool" where
  "isPing pkt = (case pkt of bncs_Ping v \<Rightarrow> True | _ \<Rightarrow> False)"

definition isAuthInfoResp :: "packet \<Rightarrow> AuthInfoResp option" where
  "isAuthInfoResp pkt = (case pkt of bncs_AuthInfoResp p \<Rightarrow> Some p | _ \<Rightarrow> None)"

function authInfoLoop :: "packet result \<Rightarrow> world \<Rightarrow> AuthInfoResp result \<times> world" where
  "authInfoLoop Hang conn = (Hang, conn)"
| "authInfoLoop (Err err) conn = (Err err, conn)"
| "authInfoLoop (Ok pkt) conn =
     (if isPing pkt then
        (case fst (Send pkt conn) of
           Some err \<Rightarrow> (Err err, snd (Send pkt conn))
         | None \<Rightarrow>
             authInfoLoop (fst (NextPacket NoTimeout (snd (Send pkt conn))))
                          (snd (NextPacket NoTimeout (snd (Send pkt conn)))))
      else
        (case isAuthInfoResp pkt of
           Some p \<Rightarrow> (Ok p, conn)
         | None \<Rightarrow>
             authInfoLoop (fst (NextPacket NoTimeout (Fire pkt conn)))
                          (snd (NextPacket NoTimeout (Fire pkt conn)))))"
  by pat_completeness auto
termination
proof (relation "measure (\<lambda>(r, w). case r of Ok p \<Rightarrow> Suc (length (inbox w)) | _ \<Rightarrow> 0)")
  show "wf (measure (\<lambda>(r, w). case r of Ok p \<Rightarrow> Suc (length (inbox w)) | _ \<Rightarrow> 0))"
    by simp
qed (auto simp: NextPacket_def Fire_def Send_def transmit_def record_action_def
          split: list.splits sum.splits timeout.splits)

text \<open>
  The loop of the six other steps, which differ only in the type they wait for.
  \<open>expect\<close> is the first case of the type switch: it yields the response when the
  packet has the awaited type.
  \<^verbatim>\<open>for { if err != nil { return nil, err }
        switch p := pkt.(type) {
        case *bncs.AuthCheckResp: return p, nil
        default:                  b.Fire(pkt) }
        pkt, err = conn.NextPacket(network.NoTimeout) }\<close>
\<close>

function responseLoop ::
  "(packet \<Rightarrow> 'a option) \<Rightarrow> packet result \<Rightarrow> world \<Rightarrow> 'a result \<times> world" where
  "responseLoop expect Hang w = (Hang, w)"
| "responseLoop expect (Err e) w = (Err e, w)"
| "responseLoop expect (Ok pkt) w =
     (case expect pkt of
        Some p \<Rightarrow> (Ok p, w)
      | None \<Rightarrow>
          responseLoop expect (fst (NextPacket NoTimeout (Fire pkt w)))
                              (snd (NextPacket NoTimeout (Fire pkt w))))"
  by pat_completeness auto
termination
proof (relation "measure (\<lambda>(x, r, w). case r of Ok p \<Rightarrow> Suc (length (inbox w)) | _ \<Rightarrow> 0)")
  show "wf (measure (\<lambda>(x, r, w). case r of Ok p \<Rightarrow> Suc (length (inbox w)) | _ \<Rightarrow> 0))"
    by simp
qed (auto simp: NextPacket_def Fire_def record_action_def
          split: list.splits sum.splits timeout.splits)

text \<open>The type switches of the steps.\<close>

definition isAuthCheckResp :: "packet \<Rightarrow> AuthCheckResp option" where
  "isAuthCheckResp pkt = (case pkt of bncs_AuthCheckResp p \<Rightarrow> Some p | _ \<Rightarrow> None)"

definition isAuthAccountLogonResp :: "packet \<Rightarrow> AuthAccountLogonResp option" where
  "isAuthAccountLogonResp pkt =
     (case pkt of bncs_AuthAccountLogonResp p \<Rightarrow> Some p | _ \<Rightarrow> None)"

definition isAuthAccountLogonProofResp :: "packet \<Rightarrow> AuthAccountLogonProofResp option" where
  "isAuthAccountLogonProofResp pkt =
     (case pkt of bncs_AuthAccountLogonProofResp p \<Rightarrow> Some p | _ \<Rightarrow> None)"

definition isAuthAccountCreateResp :: "packet \<Rightarrow> AuthAccountCreateResp option" where
  "isAuthAccountCreateResp pkt =
     (case pkt of bncs_AuthAccountCreateResp p \<Rightarrow> Some p | _ \<Rightarrow> None)"

definition isAuthAccountChangePassResp :: "packet \<Rightarrow> AuthAccountLogonResp option" where
  "isAuthAccountChangePassResp pkt =
     (case pkt of bncs_AuthAccountChangePassResp p \<Rightarrow> Some p | _ \<Rightarrow> None)"

definition isAuthAccountChangePassProofResp ::
  "packet \<Rightarrow> AuthAccountLogonProofResp option" where
  "isAuthAccountChangePassProofResp pkt =
     (case pkt of bncs_AuthAccountChangePassProofResp p \<Rightarrow> Some p | _ \<Rightarrow> None)"

definition isEnterChatResp :: "packet \<Rightarrow> EnterChatResp option" where
  "isEnterChatResp pkt = (case pkt of bncs_EnterChatResp p \<Rightarrow> Some p | _ \<Rightarrow> None)"

text \<open>
  The tail that the six steps share, written out in each of them in the source: send the
  request, wait for the first packet with the step's timeout, then loop.
  \<^verbatim>\<open>if _, err := conn.Send(req); err != nil { return nil, err }
  pkt, err := conn.NextPacket(10 * time.Second)
  for { ... }\<close>
\<close>

definition awaitResponse ::
  "packet \<Rightarrow> timeout \<Rightarrow> (packet \<Rightarrow> 'a option) \<Rightarrow> world \<Rightarrow> 'a result \<times> world" where
  "awaitResponse req t expect conn =
     (case Send req conn of
        (Some err, conn) \<Rightarrow> (Err err, conn)
      | (None, conn) \<Rightarrow>
          responseLoop expect (fst (NextPacket t conn)) (snd (NextPacket t conn)))"

text \<open>
  \<open>Config\<close> of bnet.go. Durations are in seconds; the unsigned fields hold their values
  as naturals.
\<close>

record Config =
  ServerAddr :: string
  KeepAliveInterval :: nat
  Platform :: AuthInfoReq
  BinPath :: string
  ExeInfo :: string
  ExeVersion :: nat
  ExeHash :: nat
  VerifySignature :: bool
  SHA1Auth :: bool
  Username :: string
  Password :: string
  CDKeyOwner :: string
  CDKeys :: "string list"
  GamePort :: nat

text \<open>
  The fields of \<open>Client\<close> that the handshake reads or writes: the embedded \<open>Config\<close> and
  \<open>UniqueName\<close>. (The chat fields are \<open>ChatState\<close> above; the embedded connection and
  event bus are the \<open>world\<close>.)
\<close>

record Client =
  UniqueName :: string
  Config :: Config

text \<open>
  The collaborators that bnet.go calls and whose source is outside the files at hand,
  as parameters: the resolver and dialer of package \<open>net\<close>, the clock, the file system,
  the executable inspection and CD-key functions, the two password-proof schemes behind
  the \<open>SRP\<close> interface (\<open>'srp\<close> is the state of a proof context; \<open>PasswordProof\<close> returns
  the context with the derived secret stored), and the four converters from result codes
  to errors.
\<close>

record 'srp env =
  ResolveTCPAddr :: "string \<Rightarrow> error + TCPAddr"
  DialTCP :: "TCPAddr \<Rightarrow> error option"
  VerifyServerSignature :: "bytes \<Rightarrow> bytes \<Rightarrow> bool"
  time_Now_Unix :: int
  os_Stat :: "string \<Rightarrow> error option"
  filepath_Join :: "string \<Rightarrow> string \<Rightarrow> string"
  GetExeInfo :: "string \<Rightarrow> error + nat \<times> string"
  CheckRevision :: "string \<Rightarrow> string list \<Rightarrow> nat \<Rightarrow> error + nat"
  ExtractMPQNumber :: "string \<Rightarrow> nat"
  CreateBNCSKeyInfo :: "string \<Rightarrow> nat \<Rightarrow> nat \<Rightarrow> error + bytes"
  NewSHA1 :: "string \<Rightarrow> 'srp"
  NewNLS :: "string \<Rightarrow> string \<Rightarrow> error + 'srp"
  ClientKey :: "'srp \<Rightarrow> bytes"
  PasswordProof :: "'srp \<Rightarrow> bytes \<Rightarrow> bytes \<Rightarrow> bytes \<times> 'srp"
  VerifyPassword :: "'srp \<Rightarrow> bytes \<Rightarrow> bool"
  AccountCreate :: "'srp \<Rightarrow> error + bytes \<times> bytes"
  AuthResultToError :: "AuthResult \<Rightarrow> error"
  LogonResultToError :: "LogonResult \<Rightarrow> error"
  LogonProofResultToError :: "LogonProofResult \<Rightarrow> error"
  AccountCreateResultToError :: "AccountCreateResult \<Rightarrow> error"

definition newSRP :: "'srp env \<Rightarrow> Config \<Rightarrow> string \<Rightarrow> error + 'srp" where
  "newSRP e b password =
     (if SHA1Auth b then Inr (NewSHA1 e password) else NewNLS e (Username b) password)"

definition sendAuthInfo :: "Config \<Rightarrow> world \<Rightarrow> AuthInfoResp result \<times> world" where
  "sendAuthInfo b conn =
     (case Send (bncs_AuthInfoReq (Platform b)) conn of
        (Some err, conn) \<Rightarrow> (Err err, conn)
      | (None, conn) \<Rightarrow>
          authInfoLoop (fst (NextPacket (Timeout 10) conn))
                       (snd (NextPacket (Timeout 10) conn)))"

text \<open>
  The first half of \<open>sendAuthCheck\<close>: the executable information, version and hash of
  the request, taken from \<open>Config\<close> or, where the version or the hash is zero, derived
  from the files under \<open>BinPath\<close>. Every \<open>return nil, err\<close> of the source is an
  \<open>Inl\<close>.
\<close>

definition authCheckFiles :: "'srp env \<Rightarrow> Config \<Rightarrow> string \<Rightarrow> error + string list" where
  "authCheckFiles e b exePath =
     (if Version (GameVersion (Platform b)) < 29 then
        (let stormPath = filepath_Join e (BinPath b) ''Storm.dll'' in
         case os_Stat e stormPath of
           Some err \<Rightarrow> Inl err
         | None \<Rightarrow>
             (let gamePath = filepath_Join e (BinPath b) ''game.dll'' in
              case os_Stat e gamePath of
                Some err \<Rightarrow> Inl err
              | None \<Rightarrow> Inr ([exePath] @ [stormPath, gamePath])))
      else Inr [exePath])"

definition authCheckExe ::
  "'srp env \<Rightarrow> Config \<Rightarrow> AuthInfoResp \<Rightarrow> error + string \<times> nat \<times> nat" where
  "authCheckExe e b authinfo =
     (let exeInfo = ExeInfo b; exeVers = ExeVersion b; exeHash = ExeHash b in
      if exeVers = 0 \<or> exeHash = 0 then
        (let exePath =
               (if Version (GameVersion (Platform b)) < 28
                then filepath_Join e (BinPath b) ''war3.exe''
                else filepath_Join e (BinPath b) ''Warcraft III.exe'') in
         case os_Stat e exePath of
           Some err \<Rightarrow> Inl err
         | None \<Rightarrow>
             (case (if exeVers = 0 then
                      (case GetExeInfo e exePath of
                         Inl err \<Rightarrow> Inl err
                       | Inr (v, i) \<Rightarrow> Inr (if exeInfo = [] then i else exeInfo, v))
                    else Inr (exeInfo, exeVers)) of
                Inl err \<Rightarrow> Inl err
              | Inr (exeInfo, exeVers) \<Rightarrow>
                  (if exeHash = 0 then
                     (case authCheckFiles e b exePath of
                        Inl err \<Rightarrow> Inl err
                      | Inr files \<Rightarrow>
                          (case CheckRevision e (ValueString authinfo) files
                                  (ExtractMPQNumber e (MpqFileName authinfo)) of
                             Inl err \<Rightarrow> Inl err
                           | Inr h \<Rightarrow> Inr (exeInfo, exeVers, h)))
                   else Inr (exeInfo, exeVers, exeHash))))
      else Inr (exeInfo, exeVers, exeHash))"

text \<open>The loop over \<open>b.CDKeys\<close>: the first key that fails to decode ends the step.\<close>

fun authCheckKeys :: "'srp env \<Rightarrow> string list \<Rightarrow> nat \<Rightarrow> nat \<Rightarrow> error + bytes list" where
  "authCheckKeys e [] clientToken serverToken = Inr []"
| "authCheckKeys e (k # ks) clientToken serverToken =
     (case CreateBNCSKeyInfo e k clientToken serverToken of
        Inl err \<Rightarrow> Inl err
      | Inr info \<Rightarrow>
          (case authCheckKeys e ks clientToken serverToken of
             Inl err \<Rightarrow> Inl err
           | Inr infos \<Rightarrow> Inr (info # infos)))"

definition sendAuthCheck ::
  "'srp env \<Rightarrow> Config \<Rightarrow> nat \<Rightarrow> AuthInfoResp \<Rightarrow> world \<Rightarrow> AuthCheckResp result \<times> world" where
  "sendAuthCheck e b clientToken authinfo conn =
     (case authCheckExe e b authinfo of
        Inl err \<Rightarrow> (Err err, conn)
      | Inr (exeInfo, exeVers, exeHash) \<Rightarrow>
          (case authCheckKeys e (CDKeys b) clientToken (ServerToken authinfo) of
             Inl err \<Rightarrow> (Err err, conn)
           | Inr cdkeys \<Rightarrow>
               awaitResponse
                 (bncs_AuthCheckReq clientToken exeInfo exeVers exeHash cdkeys (CDKeyOwner b))
                 (Timeout 10) isAuthCheckResp conn))"

definition sendLogon ::
  "'srp env \<Rightarrow> Config \<Rightarrow> 'srp \<Rightarrow> world \<Rightarrow> AuthAccountLogonResp result \<times> world" where
  "sendLogon e b srp conn =
     awaitResponse (bncs_AuthAccountLogonReq (ClientKey e srp) (Username b))
       (Timeout 15) isAuthAccountLogonResp conn"

text \<open>
  \<open>sendLogonProof\<close> calls \<open>srp.PasswordProof\<close>, which stores the derived secret in the
  proof context; the context after the call is returned beside the response.
\<close>

definition sendLogonProof ::
  "'srp env \<Rightarrow> 'srp \<Rightarrow> AuthAccountLogonResp \<Rightarrow> world
     \<Rightarrow> (AuthAccountLogonProofResp \<times> 'srp) result \<times> world" where
  "sendLogonProof e srp logon conn =
     (let (clientProof, srp) = PasswordProof e srp (logon_ServerKey logon) (logon_Salt logon) in
      awaitResponse (bncs_AuthAccountLogonProofReq clientProof) (Timeout 10)
        (\<lambda>pkt. map_option (\<lambda>p. (p, srp)) (isAuthAccountLogonProofResp pkt)) conn)"

text \<open>
  \<open>copy(req.Salt[:], salt)\<close> into a zeroed fixed-size array (32 bytes for salts and
  verifiers in the bncs package).
\<close>

definition copy_array :: "nat \<Rightarrow> bytes \<Rightarrow> bytes" where
  "copy_array n src = take n src @ replicate (n - length src) 0"

definition sendCreateAccount ::
  "'srp env \<Rightarrow> Config \<Rightarrow> 'srp \<Rightarrow> world \<Rightarrow> AuthAccountCreateResp result \<times> world" where
  "sendCreateAccount e b srp conn =
     (case AccountCreate e srp of
        Inl err \<Rightarrow> (Err err, conn)
      | Inr (salt, verifier) \<Rightarrow>
          awaitResponse
            (bncs_AuthAccountCreateReq (copy_array 32 salt) (copy_array 32 verifier)
               (Username b))
            (Timeout 10) isAuthAccountCreateResp conn)"

definition sendChangePass ::
  "'srp env \<Rightarrow> Config \<Rightarrow> 'srp \<Rightarrow> world \<Rightarrow> AuthAccountLogonResp result \<times> world" where
  "sendChangePass e b srp conn =
     awaitResponse (bncs_AuthAccountChangePassReq (ClientKey e srp) (Username b))
       (Timeout 15) isAuthAccountChangePassResp conn"

definition sendChangePassProof ::
  "'srp env \<Rightarrow> 'srp \<Rightarrow> 'srp \<Rightarrow> AuthAccountLogonResp \<Rightarrow> world
     \<Rightarrow> (AuthAccountLogonProofResp \<times> 'srp) result \<times> world" where
  "sendChangePassProof e oldSRP newSRP' resp conn =
     (case AccountCreate e newSRP' of
        Inl err \<Rightarrow> (Err err, conn)
      | Inr (salt, verifier) \<Rightarrow>
          (let (clientProof, oldSRP) =
                 PasswordProof e oldSRP (logon_ServerKey resp) (logon_Salt resp) in
           awaitResponse
             (bncs_AuthAccountChangePassProofReq clientProof (copy_array 32 salt)
                (copy_array 32 verifier))
             (Timeout 10)
             (\<lambda>pkt. map_option (\<lambda>p. (p, oldSRP)) (isAuthAccountChangePassProofResp pkt))
             conn))"

definition sendEnterChat :: "Config \<Rightarrow> world \<Rightarrow> EnterChatResp result \<times> world" where
  "sendEnterChat b conn =
     (case Send (bncs_NetGamePort (GamePort b)) conn of
        (Some err, conn) \<Rightarrow> (Err err, conn)
      | (None, conn) \<Rightarrow>
          awaitResponse bncs_EnterChatReq (Timeout 10) isEnterChatResp conn)"

section \<open>The operations: \<open>Dial\<close>, \<open>Logon\<close>, \<open>CreateAccount\<close>, \<open>ChangePassword\<close>\<close>

text \<open>
  \<open>DialWithConn\<close> on a connection whose remote address is the TCP address \<open>addr\<close> (the
  only kind that \<open>Dial\<close> passes). The world is the connection, so \<open>Ok ()\<close> stands for
  the returned \<open>*network.BNCSConn\<close>. The client token is
  \<open>uint32(time.Now().Unix())\<close>.
\<close>

definition DialWithConn ::
  "'srp env \<Rightarrow> Config \<Rightarrow> TCPAddr \<Rightarrow> world \<Rightarrow> unit result \<times> world" where
  "DialWithConn e b addr conn =
     (let bncsconn = record_action wrote_greeting conn in
      case sendAuthInfo b bncsconn of
        (Hang, bncsconn) \<Rightarrow> (Hang, bncsconn)
      | (Err err, bncsconn) \<Rightarrow> (Err err, Close bncsconn)
      | (Ok authInfo, bncsconn) \<Rightarrow>
          if VerifySignature b
             \<and> \<not> VerifyServerSignature e (IP addr) (ServerSignature authInfo) then
            (Err ErrInvalidServerSig, Close bncsconn)
          else
            (let clientToken = nat (time_Now_Unix e mod 2 ^ 32) in
             case sendAuthCheck e b clientToken authInfo bncsconn of
               (Hang, bncsconn) \<Rightarrow> (Hang, bncsconn)
             | (Err err, bncsconn) \<Rightarrow> (Err err, Close bncsconn)
             | (Ok authCheck, bncsconn) \<Rightarrow>
                 if authCheck_Result authCheck \<noteq> AuthSuccess then
                   (Err (AuthResultToError e (authCheck_Result authCheck)), Close bncsconn)
                 else (Ok (), bncsconn)))"

text \<open>
  \<open>Dial\<close>. Its first statement is \<open>addDefaultPort\<close>:
  \<open>strings.ContainsRune(b.ServerAddr, ':')\<close> looks for the byte of the colon, and the
  assignment \<open>b.ServerAddr += ":6112"\<close> writes the client's \<open>Config\<close>, so the client is
  returned beside the result.
\<close>

definition addDefaultPort :: "Client \<Rightarrow> Client" where
  "addDefaultPort b =
     (if CHR '':'' \<notin> set (ServerAddr (Config b))
      then b\<lparr>Config := (Config b)\<lparr>ServerAddr := ServerAddr (Config b) @ '':6112''\<rparr>\<rparr>
      else b)"

definition Dial :: "'srp env \<Rightarrow> Client \<Rightarrow> world \<Rightarrow> unit result \<times> Client \<times> world" where
  "Dial e b w =
     (let b = addDefaultPort b in
      case ResolveTCPAddr e (ServerAddr (Config b)) of
        Inl err \<Rightarrow> (Err err, b, w)
      | Inr addr \<Rightarrow>
          (case DialTCP e addr of
             Some err \<Rightarrow> (Err err, b, w)
           | None \<Rightarrow>
               (case DialWithConn e (Config b) addr (record_action (dialed addr) w) of
                  (r, conn) \<Rightarrow> (r, b, conn))))"

text \<open>
  A deferred call (\<open>defer srp.Free()\<close>, \<open>defer bncsconn.Close()\<close>) runs when the
  function returns, with a value or with an error; it does not run while the function
  hangs.
\<close>

definition deferred ::
  "action \<Rightarrow> 'a result \<times> Client \<times> world \<Rightarrow> 'a result \<times> Client \<times> world" where
  "deferred a x =
     (case fst x of
        Hang \<Rightarrow> x
      | _ \<Rightarrow> (fst x, fst (snd x), record_action a (snd (snd x))))"

text \<open>
  The \<open>switch proof.Result\<close> of \<open>Logon\<close>: nothing on success, an empty \<open>SetEmail\<close> when
  the server asks for an address, the classified error otherwise.
\<close>

definition logonProofSwitch ::
  "'srp env \<Rightarrow> LogonProofResult \<Rightarrow> world \<Rightarrow> error option \<times> world" where
  "logonProofSwitch e r bncsconn =
     (case r of
        LogonProofSuccess \<Rightarrow> (None, bncsconn)
      | LogonProofRequireEmail \<Rightarrow> Send (bncs_SetEmail []) bncsconn
      | LogonProofResultOther n \<Rightarrow> (Some (LogonProofResultToError e r), bncsconn))"

definition Logon :: "'srp env \<Rightarrow> Client \<Rightarrow> world \<Rightarrow> unit result \<times> Client \<times> world" where
  "Logon e b w =
     (case newSRP e (Config b) (Password (Config b)) of
        Inl err \<Rightarrow> (Err err, b, w)
      | Inr srp \<Rightarrow>
          deferred freed
            (case Dial e b w of
               (Hang, b, bncsconn) \<Rightarrow> (Hang, b, bncsconn)
             | (Err err, b, bncsconn) \<Rightarrow> (Err err, b, bncsconn)
             | (Ok u, b, bncsconn) \<Rightarrow>
                 (case sendLogon e (Config b) srp bncsconn of
                    (Hang, bncsconn) \<Rightarrow> (Hang, b, bncsconn)
                  | (Err err, bncsconn) \<Rightarrow> (Err err, b, Close bncsconn)
                  | (Ok logon, bncsconn) \<Rightarrow>
                      if logon_Result logon \<noteq> LogonSuccess then
                        (Err (LogonResultToError e (logon_Result logon)), b, Close bncsconn)
                      else
                        (case sendLogonProof e srp logon bncsconn of
                           (Hang, bncsconn) \<Rightarrow> (Hang, b, bncsconn)
                         | (Err err, bncsconn) \<Rightarrow> (Err err, b, Close bncsconn)
                         | (Ok (proof, srp), bncsconn) \<Rightarrow>
                             (case logonProofSwitch e (proof_Result proof) bncsconn of
                                (Some err, bncsconn) \<Rightarrow> (Err err, b, Close bncsconn)
                              | (None, bncsconn) \<Rightarrow>
                                  if \<not> VerifyPassword e srp (proof_ServerPasswordProof proof)
                                  then (Err ErrPasswordVerification, b, Close bncsconn)
                                  else
                                    (case sendEnterChat (Config b) bncsconn of
                                       (Hang, bncsconn) \<Rightarrow> (Hang, b, bncsconn)
                                     | (Err err, bncsconn) \<Rightarrow> (Err err, b, Close bncsconn)
                                     | (Ok chat, bncsconn) \<Rightarrow>
                                         (case Send (bncs_JoinChannel ChannelJoinFirst ''W3'')
                                                 bncsconn of
                                            (Some err, bncsconn) \<Rightarrow>
                                              (Err err, b, Close bncsconn)
                                          | (None, bncsconn) \<Rightarrow>
                                              (Ok (),
                                               b\<lparr>UniqueName := chat_UniqueName chat\<rparr>,
                                               record_action conn_set bncsconn))))))))"

definition CreateAccount ::
  "'srp env \<Rightarrow> Client \<Rightarrow> world \<Rightarrow> unit result \<times> Client \<times> world" where
  "CreateAccount e b w =
     (case newSRP e (Config b) (Password (Config b)) of
        Inl err \<Rightarrow> (Err err, b, w)
      | Inr srp \<Rightarrow>
          deferred freed
            (case Dial e b w of
               (Hang, b, bncsconn) \<Rightarrow> (Hang, b, bncsconn)
             | (Err err, b, bncsconn) \<Rightarrow> (Err err, b, bncsconn)
             | (Ok u, b, bncsconn) \<Rightarrow>
                 deferred closed
                   (case sendCreateAccount e (Config b) srp bncsconn of
                      (Hang, bncsconn) \<Rightarrow> (Hang, b, bncsconn)
                    | (Err err, bncsconn) \<Rightarrow> (Err err, b, bncsconn)
                    | (Ok create, bncsconn) \<Rightarrow>
                        if create_Result create \<noteq> AccountCreateSuccess then
                          (Err (AccountCreateResultToError e (create_Result create)),
                           b, bncsconn)
                        else (Ok (), b, bncsconn))))"

definition ChangePassword ::
  "'srp env \<Rightarrow> string \<Rightarrow> Client \<Rightarrow> world \<Rightarrow> unit result \<times> Client \<times> world" where
  "ChangePassword e newPassword b w =
     (case newSRP e (Config b) (Password (Config b)) of
        Inl err \<Rightarrow> (Err err, b, w)
      | Inr oldSRP \<Rightarrow>
          deferred freed
            (case newSRP e (Config b) newPassword of
               Inl err \<Rightarrow> (Err err, b, w)
             | Inr newSRP' \<Rightarrow>
                 deferred freed
                   (case Dial e b w of
                      (Hang, b, bncsconn) \<Rightarrow> (Hang, b, bncsconn)
                    | (Err err, b, bncsconn) \<Rightarrow> (Err err, b, bncsconn)
                    | (Ok u, b, bncsconn) \<Rightarrow>
                        deferred closed
                          (case sendChangePass e (Config b) oldSRP bncsconn of
                             (Hang, bncsconn) \<Rightarrow> (Hang, b, bncsconn)
                           | (Err err, bncsconn) \<Rightarrow> (Err err, b, bncsconn)
                           | (Ok resp, bncsconn) \<Rightarrow>
                               if logon_Result resp \<noteq> LogonSuccess then
                                 (Err (LogonResultToError e (logon_Result resp)), b, bncsconn)
                               else
                                 (case sendChangePassProof e oldSRP newSRP' resp bncsconn of
                                    (Hang, bncsconn) \<Rightarrow> (Hang, b, bncsconn)
                                  | (Err err, bncsconn) \<Rightarrow> (Err err, b, bncsconn)
                                  | (Ok (proof, oldSRP), bncsconn) \<Rightarrow>
                                      if proof_Result proof \<noteq> LogonProofSuccess then
                                        (Err (LogonProofResultToError e (proof_Result proof)),
                                         b, bncsconn)
                                      else if \<not> VerifyPassword e oldSRP
                                                  (proof_ServerPasswordProof proof) then
                                        (Err ErrPasswordVerification, b, bncsconn)
                                      else
                                        (Ok (),
                                         b\<lparr>Config := (Config b)\<lparr>Password := newPassword\<rparr>\<rparr>,
                                         bncsconn))))))"

section \<open>Outbound chat: \<open>FilterChat\<close> and \<open>Say\<close>\<close>

text \<open>
  A Go string holds bytes; \<open>range\<close>, \<open>strings.Map\<close> and \<open>unicode.IsPrint\<close> work on the
  runes (code points, \<open>int32\<close>) that its UTF-8 decoding yields, while \<open>len\<close> and slicing
  count bytes. The decoding and encoding of package \<open>unicode/utf8\<close> are written out here
  from the Go library: a byte below \<open>0x80\<close> is itself; the lead bytes \<open>0xC2\<close> to
  \<open>0xF4\<close> announce 2, 3 or 4 bytes, the second of which must lie in the lead byte's
  accept range and the others in \<open>0x80..0xBF\<close>; anything else decodes as \<open>RuneError\<close>
  (\<open>U+FFFD\<close>) of width 1. The library's masks and shifts on disjoint bit fields are
  written as \<open>mod\<close>, \<open>div\<close>, products and sums.
\<close>

definition RuneError :: int where
  "RuneError = 0xFFFD"

text \<open>
  The library reads the size of a sequence and the accept range of its second byte from
  tables indexed by the lead byte; for the lead bytes \<open>0xC2\<close> to \<open>0xF4\<close> they are:
\<close>

definition sequenceSize :: "int \<Rightarrow> nat" where
  "sequenceSize s0 = (if s0 < 0xE0 then 2 else if s0 < 0xF0 then 3 else 4)"

definition acceptLo :: "int \<Rightarrow> int" where
  "acceptLo s0 = (if s0 = 0xE0 then 0xA0 else if s0 = 0xF0 then 0x90 else 0x80)"

definition acceptHi :: "int \<Rightarrow> int" where
  "acceptHi s0 = (if s0 = 0xED then 0x9F else if s0 = 0xF4 then 0x8F else 0xBF)"

fun DecodeRuneInString :: "string \<Rightarrow> int \<times> nat" where
  "DecodeRuneInString [] = (RuneError, 0)"
| "DecodeRuneInString (c # cs) =
     (let s0 = of_char c :: int in
      if s0 < 0x80 then (s0, 1)
      else if s0 < 0xC2 \<or> 0xF4 < s0 then (RuneError, 1)
      else if length (c # cs) < sequenceSize s0 then (RuneError, 1)
      else
        (let s1 = of_char (cs ! 0) :: int in
         if s1 < acceptLo s0 \<or> acceptHi s0 < s1 then (RuneError, 1)
         else if sequenceSize s0 \<le> 2 then (s0 mod 32 * 64 + s1 mod 64, 2)
         else
           (let s2 = of_char (cs ! 1) :: int in
            if s2 < 0x80 \<or> 0xBF < s2 then (RuneError, 1)
            else if sequenceSize s0 \<le> 3 then
              (s0 mod 16 * 4096 + s1 mod 64 * 64 + s2 mod 64, 3)
            else
              (let s3 = of_char (cs ! 2) :: int in
               if s3 < 0x80 \<or> 0xBF < s3 then (RuneError, 1)
               else (s0 mod 8 * 262144 + s1 mod 64 * 4096 + s2 mod 64 * 64 + s3 mod 64,
                     4)))))"

text \<open>The runes of a string, as \<open>for _, c := range s\<close> yields them.\<close>

fun runes :: "string \<Rightarrow> int list" where
  "runes [] = []"
| "runes (c # cs) =
     fst (DecodeRuneInString (c # cs))
       # runes (drop (snd (DecodeRuneInString (c # cs)) - 1) cs)"

text \<open>
  \<open>utf8.EncodeRune\<close>, as \<open>strings.Builder.WriteRune\<close> appends it: negative values,
  values above \<open>0x10FFFF\<close> and surrogates are written as \<open>RuneError\<close>.
\<close>

definition encode3 :: "int \<Rightarrow> string" where
  "encode3 r =
     [char_of (0xE0 + r div 4096), char_of (0x80 + r div 64 mod 64), char_of (0x80 + r mod 64)]"

definition EncodeRune :: "int \<Rightarrow> string" where
  "EncodeRune r =
     (if 0 \<le> r \<and> r \<le> 0x7F then [char_of r]
      else if 0 \<le> r \<and> r \<le> 0x7FF then [char_of (0xC0 + r div 64), char_of (0x80 + r mod 64)]
      else if r < 0 \<or> 0x10FFFF < r \<or> (0xD800 \<le> r \<and> r \<le> 0xDFFF) then encode3 RuneError
      else if r \<le> 0xFFFF then encode3 r
      else [char_of (0xF0 + r div 262144), char_of (0x80 + r div 4096 mod 64),
            char_of (0x80 + r div 64 mod 64), char_of (0x80 + r mod 64)])"

text \<open>
  \<open>strings.Map\<close>: the mapping is applied to every rune of the string; a negative result
  drops the rune, any other result is appended in UTF-8. (The library returns the input
  itself when no rune changes; that is the same string, since every validly encoded rune
  is re-encoded to its own bytes and an invalid byte counts as changed.)
\<close>

definition strings_Map :: "(int \<Rightarrow> int) \<Rightarrow> string \<Rightarrow> string" where
  "strings_Map mapping s =
     concat (map (\<lambda>c. let r = mapping c in if 0 \<le> r then EncodeRune r else []) (runes s))"

text \<open>
  \<open>FilterChat\<close>. \<open>Replace\<close> stands for \<open>emojiToText.Replace\<close> (a
  \<open>strings.Replacer\<close> built from the emoji table of a third-party package) and \<open>IsPrint\<close>
  for \<open>unicode.IsPrint\<close>, whose tables are the Go library's.
\<close>

definition FilterChat :: "(string \<Rightarrow> string) \<Rightarrow> (int \<Rightarrow> bool) \<Rightarrow> string \<Rightarrow> string" where
  "FilterChat Replace IsPrint s =
     (let s = Replace s;
          s = strings_Map (\<lambda>r. if \<not> IsPrint r then - 1 else r) s
      in if length s > 254 then take 254 s else s)"

text \<open>
  \<open>Say\<close>, on the client's connection; \<open>None\<close> is the \<open>nil\<close> error.
\<close>

definition Say ::
  "(string \<Rightarrow> string) \<Rightarrow> (int \<Rightarrow> bool) \<Rightarrow> string \<Rightarrow> world \<Rightarrow> error option \<times> world" where
  "Say Replace IsPrint s w =
     (let s = FilterChat Replace IsPrint s in
      if length s = 0 then (None, w)
      else
        (case SendRL (bncs_ChatCommand s) w of
           (Some err, w) \<Rightarrow> (Some err, w)
         | (None, w) \<Rightarrow> (None, w)))"

section \<open>Specification-side definitions\<close>

text \<open>
  The request/response step as the specification words it, for a read script \<open>rs\<close> and
  the timeout \<open>t\<close> of the first wait: the step returns the first \<open>AuthInfoResp\<close>
  received or the first read error; every wait after the first has no timeout; a wait on
  an exhausted script ends with the deadline error when it is bounded and never ends
  otherwise.
\<close>

fun spec_first_response :: "timeout \<Rightarrow> (error + packet) list \<Rightarrow> AuthInfoResp result" where
  "spec_first_response t [] = (case t of NoTimeout \<Rightarrow> Hang | Timeout n \<Rightarrow> Err ErrTimeout)"
| "spec_first_response t (Inl err # rs) = Err err"
| "spec_first_response t (Inr pkt # rs) =
     (case isAuthInfoResp pkt of
        Some p \<Rightarrow> Ok p
      | None \<Rightarrow> spec_first_response NoTimeout rs)"

text \<open>
  The actions of the step after its request, as the specification words them: a wait
  with timeout \<open>t\<close>; then, for each packet before the awaited one, the echo of a
  \<open>Ping\<close> or the dispatch of any other packet to the event bus, followed by a wait with
  no timeout.
\<close>

fun spec_step_actions :: "timeout \<Rightarrow> (error + packet) list \<Rightarrow> action list" where
  "spec_step_actions t [] = [waited t]"
| "spec_step_actions t (Inl err # rs) = [waited t]"
| "spec_step_actions t (Inr pkt # rs) =
     waited t #
       (if isPing pkt then sent pkt # spec_step_actions NoTimeout rs
        else case isAuthInfoResp pkt of
               Some p \<Rightarrow> []
             | None \<Rightarrow> fired pkt # spec_step_actions NoTimeout rs)"

text \<open>
  The number of \<open>Ping\<close> packets that the step echoes, and the part of the script that
  it leaves unread: both end at the first \<open>AuthInfoResp\<close> or read error.
\<close>

fun spec_echoes :: "(error + packet) list \<Rightarrow> nat" where
  "spec_echoes [] = 0"
| "spec_echoes (Inl err # rs) = 0"
| "spec_echoes (Inr pkt # rs) =
     (if isPing pkt then Suc (spec_echoes rs)
      else case isAuthInfoResp pkt of
             Some p \<Rightarrow> 0
           | None \<Rightarrow> spec_echoes rs)"

fun spec_unread :: "(error + packet) list \<Rightarrow> (error + packet) list" where
  "spec_unread [] = []"
| "spec_unread (Inl err # rs) = rs"
| "spec_unread (Inr pkt # rs) =
     (if isPing pkt then spec_unread rs
      else case isAuthInfoResp pkt of
             Some p \<Rightarrow> rs
           | None \<Rightarrow> spec_unread rs)"

text \<open>
  The rune that is read back from the bytes \<open>EncodeRune\<close> writes for \<open>r\<close>: \<open>r\<close> itself
  when it is a Unicode scalar value, \<open>RuneError\<close> otherwise.
\<close>

definition written_rune :: "int \<Rightarrow> int" where
  "written_rune r =
     (if r < 0 \<or> 0x10FFFF < r \<or> (0xD800 \<le> r \<and> r \<le> 0xDFFF) then RuneError else r)"

text \<open>A logon request on the wire: a \<open>Send\<close> of \<open>SID_AUTH_ACCOUNTLOGON\<close>.\<close>

definition is_logon_request :: "action \<Rightarrow> bool" where
  "is_logon_request a =
     (case a of
        sent p \<Rightarrow> (case p of bncs_AuthAccountLogonReq k u \<Rightarrow> True | _ \<Rightarrow> False)
      | _ \<Rightarrow> False)"

text \<open>
  \<open>extends_without P w w'\<close>: the trace of \<open>w'\<close> is the trace of \<open>w\<close> followed by
  actions none of which satisfies \<open>P\<close>.
\<close>

definition extends_without :: "(action \<Rightarrow> bool) \<Rightarrow> world \<Rightarrow> world \<Rightarrow> bool" where
  "extends_without P w w' =
     (take (length (trace w)) (trace w') = trace w
      \<and> list_all (\<lambda>a. \<not> P a) (drop (length (trace w)) (trace w')))"

text \<open>
  What the operations may change in \<open>Config\<close>: \<open>config_frame c c'\<close> holds when \<open>c'\<close>
  agrees with \<open>c\<close> on every field other than \<open>ServerAddr\<close> and \<open>Password\<close>, and
  \<open>ServerAddr\<close> is either unchanged or, when it held no colon, extended by the default
  port.
\<close>

definition config_frame :: "Config \<Rightarrow> Config \<Rightarrow> bool" where
  "config_frame c c' =
     (c'\<lparr>ServerAddr := ServerAddr c, Password := Password c\<rparr> = c
      \<and> (ServerAddr c' = ServerAddr c
         \<or> (CHR '':'' \<notin> set (ServerAddr c) \<and> ServerAddr c' = ServerAddr c @ '':6112'')))"

section \<open>A concrete environment and scripted servers\<close>

text \<open>
  One instance of the collaborators, used to run the model: every name resolves to
  \<open>10.0.0.1:6112\<close>, every file exists, a proof context is the bytes of the password,
  and the server's counter-proof verifies exactly when it equals those bytes. The client
  logs on with the salted-hash scheme and carries its executable version and hash, so
  the file system is not consulted. A scripted server is a connection whose peer sends
  the given packets and then stays silent.
\<close>

definition example_env :: "bytes env" where
  "example_env =
     \<lparr>ResolveTCPAddr = (\<lambda>a. Inr \<lparr>IP = [10, 0, 0, 1], Port = 6112\<rparr>),
      DialTCP = (\<lambda>a. None),
      VerifyServerSignature = (\<lambda>ip sig. True),
      time_Now_Unix = 1600000000,
      os_Stat = (\<lambda>p. None),
      filepath_Join = (\<lambda>d f. d @ ''/'' @ f),
      GetExeInfo = (\<lambda>p. Inr (1, ''war3.exe'')),
      CheckRevision = (\<lambda>v fs n. Inr 1),
      ExtractMPQNumber = (\<lambda>m. 0),
      CreateBNCSKeyInfo = (\<lambda>k c s. Inr [1]),
      NewSHA1 = (\<lambda>p. map of_char p),
      NewNLS = (\<lambda>u p. Inr (map of_char p)),
      ClientKey = (\<lambda>s. [1]),
      PasswordProof = (\<lambda>s k salt. ([2], s)),
      VerifyPassword = (\<lambda>s p. p = s),
      AccountCreate = (\<lambda>s. Inr ([3], [4])),
      AuthResultToError = (\<lambda>r. ErrOther 1),
      LogonResultToError = (\<lambda>r. ErrOther 2),
      LogonProofResultToError = (\<lambda>r. ErrOther 3),
      AccountCreateResultToError = (\<lambda>r. ErrOther 4)\<rparr>"

definition example_client :: Client where
  "example_client =
     \<lparr>UniqueName = [],
      Config =
        \<lparr>ServerAddr = ''europe.battle.net'', KeepAliveInterval = 30,
         Platform =
           \<lparr>PlatformCode = ''IX86'', GameVersion = \<lparr>Product = 1, Version = 30\<rparr>,
            LanguageCode = ''enUS'', TimeZoneBias = 4294967176, MpqLocaleID = 1033,
            UserLanguageID = 1033, CountryAbbreviation = ''USA'',
            Country = ''United States''\<rparr>,
         BinPath = [], ExeInfo = ''war3.exe'', ExeVersion = 1, ExeHash = 1,
         VerifySignature = False, SHA1Auth = True, Username = ''bot'', Password = ''pw'',
         CDKeyOwner = ''gowarcraft3'', CDKeys = [], GamePort = 6112\<rparr>\<rparr>"

definition example_auth_info :: AuthInfoResp where
  "example_auth_info =
     \<lparr>ServerSignature = [], ValueString = ''A=1'', MpqFileName = ''ver-IX86-1.mpq'',
      ServerToken = 7\<rparr>"

definition scripted_server :: "packet list \<Rightarrow> world" where
  "scripted_server ps = \<lparr>trace = [], inbox = map Inr ps, sends = []\<rparr>"

section \<open>Properties of the membership handler\<close>

text \<open>
  C5. A "channel info" event sets the channel name to the event's text and resets the
  membership map to empty, whatever the state before: the result does not depend on the
  earlier membership, and processing the same event again changes nothing and leaves no
  user behind.
\<close>

theorem channel_info_resets_membership:
  assumes "pkt_Type pkt = ChatChannelInfo"
  shows "users (fst (onChatEvent L t pkt b)) = Map.empty
       \<and> channel (fst (onChatEvent L t pkt b)) = pkt_Text pkt
       \<and> snd (onChatEvent L t pkt b) = [Channel (pkt_Text pkt) (pkt_ChannelFlags pkt)]
       \<and> onChatEvent L t pkt (b\<lparr>users := m\<rparr>) = onChatEvent L t pkt b
       \<and> users (fst (onChatEvent L t' pkt (fst (onChatEvent L t pkt b)))) = Map.empty
       \<and> fst (onChatEvent L t' pkt (fst (onChatEvent L t pkt b))) = fst (onChatEvent L t pkt b)"
  using assms by (simp add: onChatEvent_def)

theorem channel_info_resets_membership_witness:
  "users (fst (onChatEvent (\<lambda>s. s) 7
      \<lparr>pkt_Type = ChatChannelInfo, pkt_UserFlags = 0, pkt_Ping = 0, pkt_Username = [],
       pkt_Text = ''W3'', pkt_ChannelFlags = 1\<rparr>
      \<lparr>channel = ''Lobby'',
       users = [''bob'' \<mapsto> \<lparr>Name = ''Bob'', StatString = ''3RAW'', Flags = 0, Ping = 20,
                              Joined = 1, LastSeen = 5\<rparr>]\<rparr>)) ''bob'' = None
   \<and> channel (fst (onChatEvent (\<lambda>s. s) 7
      \<lparr>pkt_Type = ChatChannelInfo, pkt_UserFlags = 0, pkt_Ping = 0, pkt_Username = [],
       pkt_Text = ''W3'', pkt_ChannelFlags = 1\<rparr>
      \<lparr>channel = ''Lobby'',
       users = [''bob'' \<mapsto> \<lparr>Name = ''Bob'', StatString = ''3RAW'', Flags = 0, Ping = 20,
                              Joined = 1, LastSeen = 5\<rparr>]\<rparr>)) = ''W3''"
  using channel_info_resets_membership
    [of "\<lparr>pkt_Type = ChatChannelInfo, pkt_UserFlags = 0, pkt_Ping = 0, pkt_Username = [],
          pkt_Text = ''W3'', pkt_ChannelFlags = 1\<rparr>"
        "\<lambda>s. s" 7
        "\<lparr>channel = ''Lobby'',
          users = [''bob'' \<mapsto> \<lparr>Name = ''Bob'', StatString = ''3RAW'', Flags = 0, Ping = 20,
                                 Joined = 1, LastSeen = 5\<rparr>]\<rparr>"]
  by simp

text \<open>
  C4, as stated, lets a repeated sighting keep only the first-seen time of the stored
  entry. The handler copies \<open>LastSeen\<close> from the stored entry as well: a user stored with
  \<open>Joined = 1\<close> and \<open>LastSeen = 5\<close> and shown again at time 9 is stored with
  \<open>LastSeen = 5\<close>, not 9.
\<close>

theorem show_user_only_joined_preserved_counterexample:
  "users (fst (onChatEvent (\<lambda>s. s) 9
      \<lparr>pkt_Type = ChatShowUser, pkt_UserFlags = 2, pkt_Ping = 30, pkt_Username = ''bob'',
       pkt_Text = ''PX3W'', pkt_ChannelFlags = 0\<rparr>
      \<lparr>channel = ''W3'',
       users = [''bob'' \<mapsto> \<lparr>Name = ''bob'', StatString = ''3RAW'', Flags = 0, Ping = 20,
                              Joined = 1, LastSeen = 5\<rparr>]\<rparr>)) ''bob''
   \<noteq> Some \<lparr>Name = ''bob'', StatString = ''PX3W'', Flags = 2, Ping = 30,
             Joined = 1, LastSeen = 9\<rparr>"
  by (simp add: onChatEvent_def Let_def)

text \<open>
  C4, amended. For a "user shown" or "user joined" event, with \<open>k\<close> the lower-cased
  username: if \<open>k\<close> is not in the membership map, one \<open>UserJoined\<close> notification is
  fired and the stored user has \<open>Joined\<close> and \<open>LastSeen\<close> equal to the current time; if
  \<open>k\<close> is bound to \<open>p\<close>, one \<open>UserUpdate\<close> notification is fired and the stored entry
  is a new one built from the event, with both \<open>Joined\<close> and \<open>LastSeen\<close> taken from
  \<open>p\<close>. The notification carries the stored user; other keys and the channel name are
  unchanged.
\<close>

theorem show_user_join_or_update:
  assumes "pkt_Type pkt = ChatShowUser \<or> pkt_Type pkt = ChatJoin"
  shows "(users b (L (pkt_Username pkt)) = None \<longrightarrow>
            snd (onChatEvent L now pkt b) =
              [UserJoined \<lparr>Name = pkt_Username pkt, StatString = pkt_Text pkt,
                            Flags = pkt_UserFlags pkt, Ping = pkt_Ping pkt,
                            Joined = now, LastSeen = now\<rparr> (pkt_Type pkt = ChatShowUser)]
          \<and> users (fst (onChatEvent L now pkt b)) (L (pkt_Username pkt)) =
              Some \<lparr>Name = pkt_Username pkt, StatString = pkt_Text pkt,
                     Flags = pkt_UserFlags pkt, Ping = pkt_Ping pkt,
                     Joined = now, LastSeen = now\<rparr>)
       \<and> (\<forall>p. users b (L (pkt_Username pkt)) = Some p \<longrightarrow>
            snd (onChatEvent L now pkt b) =
              [UserUpdate \<lparr>Name = pkt_Username pkt, StatString = pkt_Text pkt,
                            Flags = pkt_UserFlags pkt, Ping = pkt_Ping pkt,
                            Joined = Joined p, LastSeen = LastSeen p\<rparr>]
          \<and> users (fst (onChatEvent L now pkt b)) (L (pkt_Username pkt)) =
              Some \<lparr>Name = pkt_Username pkt, StatString = pkt_Text pkt,
                     Flags = pkt_UserFlags pkt, Ping = pkt_Ping pkt,
                     Joined = Joined p, LastSeen = LastSeen p\<rparr>)
       \<and> (\<forall>k. k \<noteq> L (pkt_Username pkt) \<longrightarrow>
            users (fst (onChatEvent L now pkt b)) k = users b k)
       \<and> channel (fst (onChatEvent L now pkt b)) = channel b"
proof -
  have not_info: "pkt_Type pkt \<noteq> ChatChannelInfo"
    using assms by auto
  show ?thesis
  proof (cases "users b (L (pkt_Username pkt))")
    case None
    then show ?thesis
      using assms not_info by (simp add: onChatEvent_def Let_def)
  next
    case (Some p)
    then show ?thesis
      using assms not_info by (simp add: onChatEvent_def Let_def)
  qed
qed

theorem show_user_join_or_update_witness:
  "snd (onChatEvent (\<lambda>s. s) 9
      \<lparr>pkt_Type = ChatShowUser, pkt_UserFlags = 2, pkt_Ping = 30, pkt_Username = ''bob'',
       pkt_Text = ''PX3W'', pkt_ChannelFlags = 0\<rparr>
      \<lparr>channel = ''W3'',
       users = [''bob'' \<mapsto> \<lparr>Name = ''bob'', StatString = ''3RAW'', Flags = 0, Ping = 20,
                              Joined = 1, LastSeen = 5\<rparr>]\<rparr>)
   = [UserUpdate \<lparr>Name = ''bob'', StatString = ''PX3W'', Flags = 2, Ping = 30,
                   Joined = 1, LastSeen = 5\<rparr>]
   \<and> snd (onChatEvent (\<lambda>s. s) 9
      \<lparr>pkt_Type = ChatShowUser, pkt_UserFlags = 2, pkt_Ping = 30, pkt_Username = ''bob'',
       pkt_Text = ''PX3W'', pkt_ChannelFlags = 0\<rparr>
      \<lparr>channel = ''W3'', users = Map.empty\<rparr>)
   = [UserJoined \<lparr>Name = ''bob'', StatString = ''PX3W'', Flags = 2, Ping = 30,
                   Joined = 9, LastSeen = 9\<rparr> True]"
  using show_user_join_or_update
    [of "\<lparr>pkt_Type = ChatShowUser, pkt_UserFlags = 2, pkt_Ping = 30, pkt_Username = ''bob'',
          pkt_Text = ''PX3W'', pkt_ChannelFlags = 0\<rparr>"
        "\<lparr>channel = ''W3'',
          users = [''bob'' \<mapsto> \<lparr>Name = ''bob'', StatString = ''3RAW'', Flags = 0, Ping = 20,
                                 Joined = 1, LastSeen = 5\<rparr>]\<rparr>"
        "\<lambda>s. s" 9]
    show_user_join_or_update
    [of "\<lparr>pkt_Type = ChatShowUser, pkt_UserFlags = 2, pkt_Ping = 30, pkt_Username = ''bob'',
          pkt_Text = ''PX3W'', pkt_ChannelFlags = 0\<rparr>"
        "\<lparr>channel = ''W3'', users = Map.empty\<rparr>"
        "\<lambda>s. s" 9]
  by simp

section \<open>Properties of the handshake and of \<open>Say\<close>\<close>

lemma record_action_simps [simp]:
  "trace (record_action a w) = trace w @ [a]"
  "inbox (record_action a w) = inbox w"
  "sends (record_action a w) = sends w"
  by (simp_all add: record_action_def)

lemma extends_without_refl: "extends_without P w w"
  by (simp add: extends_without_def)

lemma extends_without_iff:
  "extends_without P w w' \<longleftrightarrow> (\<exists>added. trace w' = trace w @ added \<and> (\<forall>a\<in>set added. \<not> P a))"
proof
  assume a: "extends_without P w w'"
  have "trace w' = take (length (trace w)) (trace w') @ drop (length (trace w)) (trace w')"
    by simp
  with a have "trace w' = trace w @ drop (length (trace w)) (trace w')"
    by (simp add: extends_without_def)
  moreover from a have "\<forall>a\<in>set (drop (length (trace w)) (trace w')). \<not> P a"
    by (simp add: extends_without_def list_all_iff)
  ultimately show "\<exists>added. trace w' = trace w @ added \<and> (\<forall>a\<in>set added. \<not> P a)"
    by blast
next
  assume "\<exists>added. trace w' = trace w @ added \<and> (\<forall>a\<in>set added. \<not> P a)"
  then show "extends_without P w w'"
    by (auto simp: extends_without_def list_all_iff)
qed

lemma extends_without_trans:
  "extends_without P w w1 \<Longrightarrow> extends_without P w1 w2 \<Longrightarrow> extends_without P w w2"
  unfolding extends_without_iff by fastforce

lemma extends_record_action:
  "\<not> P a \<Longrightarrow> extends_without P w (record_action a w)"
  unfolding extends_without_iff by simp

lemma extends_transmit:
  "\<not> P a \<Longrightarrow> extends_without P w (snd (transmit a w))"
  unfolding extends_without_iff by (simp add: transmit_def split: list.splits)

lemma extends_Send:
  "\<not> P (sent p) \<Longrightarrow> extends_without P w (snd (Send p w))"
  by (simp add: Send_def extends_transmit)

lemma extends_NextPacket:
  "\<not> P (waited t) \<Longrightarrow> extends_without P w (snd (NextPacket t w))"
  unfolding extends_without_iff
  by (cases t) (simp_all add: NextPacket_def split: list.splits sum.splits)

lemma extends_Fire:
  "\<not> P (fired p) \<Longrightarrow> extends_without P w (Fire p w)"
  by (simp add: Fire_def extends_record_action)

lemma extends_Close:
  "\<not> P closed \<Longrightarrow> extends_without P w (Close w)"
  by (simp add: Close_def extends_record_action)

lemma extends_authInfoLoop:
  assumes "\<And>t. \<not> P (waited t)" "\<And>p. \<not> P (fired p)" "\<And>p. isPing p \<Longrightarrow> \<not> P (sent p)"
  shows "extends_without P w (snd (authInfoLoop r w))"
proof (induction r w rule: authInfoLoop.induct)
  case (1 conn)
  show ?case by (simp add: extends_without_refl)
next
  case (2 err conn)
  show ?case by (simp add: extends_without_refl)
next
  case (3 pkt conn)
  show ?case
  proof (cases "isPing pkt")
    case True
    have s: "extends_without P conn (snd (Send pkt conn))"
      using True assms(3) by (simp add: extends_Send)
    show ?thesis
    proof (cases "fst (Send pkt conn)")
      case None
      have "extends_without P (snd (Send pkt conn)) (snd (NextPacket NoTimeout (snd (Send pkt conn))))"
        by (simp add: extends_NextPacket assms(1))
      with s "3.IH"(1) [OF True None] show ?thesis
        using True None by (auto intro: extends_without_trans)
    next
      case (Some err)
      with s True show ?thesis by simp
    qed
  next
    case False
    show ?thesis
    proof (cases "isAuthInfoResp pkt")
      case None
      have "extends_without P conn (Fire pkt conn)"
        by (simp add: extends_Fire assms(2))
      moreover have "extends_without P (Fire pkt conn) (snd (NextPacket NoTimeout (Fire pkt conn)))"
        by (simp add: extends_NextPacket assms(1))
      ultimately show ?thesis
        using "3.IH"(2) [OF False None] False None by (auto intro: extends_without_trans)
    next
      case (Some p)
      with False show ?thesis by (simp add: extends_without_refl)
    qed
  qed
qed

lemma extends_responseLoop:
  assumes "\<And>t. \<not> P (waited t)" "\<And>p. \<not> P (fired p)"
  shows "extends_without P w (snd (responseLoop expect r w))"
proof (induction expect r w rule: responseLoop.induct)
  case (1 expect w)
  show ?case by (simp add: extends_without_refl)
next
  case (2 expect e w)
  show ?case by (simp add: extends_without_refl)
next
  case (3 expect pkt w)
  show ?case
  proof (cases "expect pkt")
    case None
    have "extends_without P w (Fire pkt w)"
      by (simp add: extends_Fire assms(2))
    moreover have "extends_without P (Fire pkt w) (snd (NextPacket NoTimeout (Fire pkt w)))"
      by (simp add: extends_NextPacket assms(1))
    ultimately show ?thesis
      using "3.IH" [OF None] None by (auto intro: extends_without_trans)
  next
    case (Some p)
    then show ?thesis by (simp add: extends_without_refl)
  qed
qed

lemma extends_sendAuthInfo:
  assumes "\<And>t. \<not> P (waited t)" "\<And>p. \<not> P (fired p)" "\<And>p. isPing p \<Longrightarrow> \<not> P (sent p)"
    "\<And>p. \<not> P (sent (bncs_AuthInfoReq p))"
  shows "extends_without P w (snd (sendAuthInfo b w))"
proof (cases "Send (bncs_AuthInfoReq (Platform b)) w")
  case (Pair r w1)
  have s: "extends_without P w w1"
    using extends_Send [of P "bncs_AuthInfoReq (Platform b)" w] assms(4) Pair by simp
  show ?thesis
  proof (cases r)
    case None
    have "extends_without P w1 (snd (NextPacket (Timeout 10) w1))"
      by (simp add: extends_NextPacket assms(1))
    moreover have "extends_without P (snd (NextPacket (Timeout 10) w1))
      (snd (authInfoLoop (fst (NextPacket (Timeout 10) w1)) (snd (NextPacket (Timeout 10) w1))))"
      by (rule extends_authInfoLoop) (rule assms)+
    ultimately show ?thesis
      using s Pair None by (auto simp: sendAuthInfo_def intro: extends_without_trans)
  next
    case (Some err)
    with s Pair show ?thesis by (simp add: sendAuthInfo_def)
  qed
qed

lemma extends_awaitResponse:
  assumes "\<And>t. \<not> P (waited t)" "\<And>p. \<not> P (fired p)" "\<not> P (sent req)"
  shows "extends_without P w (snd (awaitResponse req t expect w))"
proof (cases "Send req w")
  case (Pair r w1)
  have s: "extends_without P w w1"
    using extends_Send [of P req w] assms(3) Pair by simp
  show ?thesis
  proof (cases r)
    case None
    have "extends_without P w1 (snd (NextPacket t w1))"
      by (simp add: extends_NextPacket assms(1))
    moreover have "extends_without P (snd (NextPacket t w1))
      (snd (responseLoop expect (fst (NextPacket t w1)) (snd (NextPacket t w1))))"
      by (rule extends_responseLoop) (rule assms)+
    ultimately show ?thesis
      using s Pair None by (auto simp: awaitResponse_def intro: extends_without_trans)
  next
    case (Some err)
    with s Pair show ?thesis by (simp add: awaitResponse_def)
  qed
qed

lemma extends_sendAuthCheck:
  assumes "\<And>t. \<not> P (waited t)" "\<And>p. \<not> P (fired p)"
    "\<And>a b c d k f. \<not> P (sent (bncs_AuthCheckReq a b c d k f))"
  shows "extends_without P w (snd (sendAuthCheck e b tok ai w))"
  using assms
  by (auto simp: sendAuthCheck_def extends_without_refl extends_awaitResponse
           split: sum.splits prod.splits)

lemma not_logon_request [simp]:
  "\<not> is_logon_request (waited t)" "\<not> is_logon_request (fired p)"
  "\<not> is_logon_request closed" "\<not> is_logon_request freed"
  "\<not> is_logon_request wrote_greeting" "\<not> is_logon_request (dialed a)"
  "isPing p \<Longrightarrow> \<not> is_logon_request (sent p)"
  "\<not> is_logon_request (sent (bncs_AuthInfoReq q))"
  "\<not> is_logon_request (sent (bncs_AuthCheckReq a1 a2 a3 a4 a5 a6))"
  by (auto simp: is_logon_request_def isPing_def split: packet.splits)


lemma Dial_client: "fst (snd (Dial e b w)) = addDefaultPort b"
  by (simp add: Dial_def Let_def split: sum.splits option.splits prod.splits)

lemma Dial_result_client: "Dial e b w = (r, b1, w1) \<Longrightarrow> b1 = addDefaultPort b"
  using Dial_client [of e b w] by simp

lemma deferred_simps [simp]:
  "deferred a (Hang, b, w) = (Hang, b, w)"
  "deferred a (Err err, b, w) = (Err err, b, record_action a w)"
  "deferred a (Ok u, b, w) = (Ok u, b, record_action a w)"
  by (simp_all add: deferred_def)

lemma deferred_client [simp]: "fst (snd (deferred a x)) = fst (snd x)"
  by (simp add: deferred_def split: result.splits)

lemma deferred_result [simp]: "fst (deferred a x) = fst x"
  by (simp add: deferred_def split: result.splits)

text \<open>
  C6. When \<open>Logon\<close> has created its proof context, resolved and dialed the server and
  received the auth-info response (with the signature accepted), and the auth-check
  response then carries a result code other than \<open>AuthSuccess\<close>, \<open>Logon\<close> returns the
  error that \<open>AuthResultToError\<close> gives for that code, after closing the connection
  (the last actions are \<open>closed\<close> and the deferred \<open>freed\<close>), and none of the actions
  of the whole call is the sending of a logon request.
\<close>

theorem Logon_stops_at_failed_auth_check:
  assumes "newSRP e (Config b) (Password (Config b)) = Inr srp"
    and "ResolveTCPAddr e (ServerAddr (Config (addDefaultPort b))) = Inr addr"
    and "DialTCP e addr = None"
    and "sendAuthInfo (Config (addDefaultPort b))
           (record_action wrote_greeting (record_action (dialed addr) w)) = (Ok authInfo, w1)"
    and "\<not> (VerifySignature (Config (addDefaultPort b))
            \<and> \<not> VerifyServerSignature e (IP addr) (ServerSignature authInfo))"
    and "sendAuthCheck e (Config (addDefaultPort b)) (nat (time_Now_Unix e mod 2 ^ 32))
           authInfo w1 = (Ok authCheck, w2)"
    and "authCheck_Result authCheck \<noteq> AuthSuccess"
  shows "Logon e b w =
           (Err (AuthResultToError e (authCheck_Result authCheck)), addDefaultPort b,
            record_action freed (Close w2))
       \<and> trace (record_action freed (Close w2)) = trace w2 @ [closed, freed]
       \<and> extends_without is_logon_request w (record_action freed (Close w2))"
proof -
  have dwc: "DialWithConn e (Config (addDefaultPort b)) addr (record_action (dialed addr) w)
      = (Err (AuthResultToError e (authCheck_Result authCheck)), Close w2)"
    using assms(4-7) by (auto simp: DialWithConn_def Let_def)
  have dial: "Dial e b w
      = (Err (AuthResultToError e (authCheck_Result authCheck)), addDefaultPort b, Close w2)"
    using assms(2,3) dwc by (simp add: Dial_def Let_def)
  have logon: "Logon e b w =
           (Err (AuthResultToError e (authCheck_Result authCheck)), addDefaultPort b,
            record_action freed (Close w2))"
    using assms(1) dial by (simp add: Logon_def)
  have e0: "extends_without is_logon_request w
      (record_action wrote_greeting (record_action (dialed addr) w))"
    by (simp add: extends_without_iff)
  have e1: "extends_without is_logon_request
      (record_action wrote_greeting (record_action (dialed addr) w)) w1"
    using extends_sendAuthInfo [of is_logon_request
        "record_action wrote_greeting (record_action (dialed addr) w)" "Config (addDefaultPort b)"]
      assms(4) by simp
  have e2: "extends_without is_logon_request w1 w2"
    using extends_sendAuthCheck [of is_logon_request w1 e "Config (addDefaultPort b)"
        "nat (time_Now_Unix e mod 2 ^ 32)" authInfo] assms(6) by simp
  have e3: "extends_without is_logon_request w2 (record_action freed (Close w2))"
    by (simp add: extends_without_iff Close_def)
  have "extends_without is_logon_request w (record_action freed (Close w2))"
    using e0 e1 e2 e3 by (blast intro: extends_without_trans)
  with logon show ?thesis
    by (simp add: Close_def)
qed

text \<open>
  C1. When the run of \<open>Logon\<close> reaches the logon-proof response, that response carries
  \<open>LogonProofSuccess\<close> and \<open>VerifyPassword\<close> rejects its \<open>ServerPasswordProof\<close>, then
  \<open>Logon\<close> closes the connection and returns \<open>ErrPasswordVerification\<close>: the success
  code alone does not make the call succeed.
\<close>

theorem Logon_fails_closed_on_bad_server_proof:
  assumes "newSRP e (Config b) (Password (Config b)) = Inr srp"
    and "Dial e b w = (Ok u, b1, w1)"
    and "sendLogon e (Config b1) srp w1 = (Ok logon, w2)"
    and "logon_Result logon = LogonSuccess"
    and "sendLogonProof e srp logon w2 = (Ok (pr, srp'), w3)"
    and "proof_Result pr = LogonProofSuccess"
    and "\<not> VerifyPassword e srp' (proof_ServerPasswordProof pr)"
  shows "Logon e b w = (Err ErrPasswordVerification, b1, record_action freed (Close w3))
       \<and> trace (record_action freed (Close w3)) = trace w3 @ [closed, freed]"
  using assms by (simp add: Logon_def logonProofSwitch_def Close_def)

text \<open>
  C9. Whenever \<open>ChangePassword\<close> does not return \<open>nil\<close> (it returns an error, or never
  returns), the stored \<open>Password\<close> is the one it had before. When it returns \<open>nil\<close>, the
  stored \<open>Password\<close> is the new one and every step succeeded: both proof contexts
  were created, the dial succeeded, both responses carried their success codes, and
  \<open>VerifyPassword\<close> accepted the server's counter-proof.
\<close>

theorem ChangePassword_sets_password_only_on_success:
  "(fst (ChangePassword e newPassword b w) \<noteq> Ok ()
      \<longrightarrow> Password (Config (fst (snd (ChangePassword e newPassword b w)))) = Password (Config b))
 \<and> (fst (ChangePassword e newPassword b w) = Ok ()
      \<longrightarrow> Password (Config (fst (snd (ChangePassword e newPassword b w)))) = newPassword
        \<and> (\<exists>oldSRP newSRP' u b1 w1 resp w2 pr oldSRP' w3.
              newSRP e (Config b) (Password (Config b)) = Inr oldSRP
            \<and> newSRP e (Config b) newPassword = Inr newSRP'
            \<and> Dial e b w = (Ok u, b1, w1)
            \<and> sendChangePass e (Config b1) oldSRP w1 = (Ok resp, w2)
            \<and> logon_Result resp = LogonSuccess
            \<and> sendChangePassProof e oldSRP newSRP' resp w2 = (Ok (pr, oldSRP'), w3)
            \<and> proof_Result pr = LogonProofSuccess
            \<and> VerifyPassword e oldSRP' (proof_ServerPasswordProof pr)))"
proof -
  have pw: "Password (Config b1) = Password (Config b)" if "Dial e b w = (r, b1, w1)" for r b1 w1
    using Dial_result_client [OF that] by (simp add: addDefaultPort_def)
  show ?thesis
    by (auto simp: ChangePassword_def dest: pw
             split: sum.splits result.splits prod.splits if_splits)
qed


lemmas eval_defs = Dial_def DialWithConn_def sendAuthInfo_def sendAuthCheck_def awaitResponse_def
  Send_def transmit_def NextPacket_def Fire_def Close_def record_action_def
  isPing_def isAuthInfoResp_def isAuthCheckResp_def authCheckExe_def
  addDefaultPort_def example_env_def example_client_def example_auth_info_def scripted_server_def
  Let_def newSRP_def sendLogon_def sendLogonProof_def isAuthAccountLogonResp_def
  isAuthAccountLogonProofResp_def Logon_def logonProofSwitch_def deferred_def
  ChangePassword_def sendChangePass_def sendChangePassProof_def copy_array_def
  isAuthAccountChangePassResp_def isAuthAccountChangePassProofResp_def




lemma config_frame_refl: "config_frame c c"
  by (simp add: config_frame_def)

lemma config_frame_addDefaultPort: "config_frame (Config b) (Config (addDefaultPort b))"
  by (simp add: config_frame_def addDefaultPort_def)

lemma addDefaultPort_Password: "Password (Config (addDefaultPort b)) = Password (Config b)"
  by (simp add: addDefaultPort_def)

lemma Logon_Config:
  "Config (fst (snd (Logon e b w))) = Config b
   \<or> Config (fst (snd (Logon e b w))) = Config (addDefaultPort b)"
proof (cases "newSRP e (Config b) (Password (Config b))")
  case (Inl err)
  then show ?thesis by (simp add: Logon_def)
next
  case (Inr srp)
  obtain r b1 w1 where d: "Dial e b w = (r, b1, w1)"
    by (cases "Dial e b w") auto
  have b1: "b1 = addDefaultPort b"
    using Dial_result_client [OF d] .
  show ?thesis
    using Inr d b1
    by (simp add: Logon_def split: sum.splits result.splits prod.splits option.splits)
qed

lemma CreateAccount_Config:
  "Config (fst (snd (CreateAccount e b w))) = Config b
   \<or> Config (fst (snd (CreateAccount e b w))) = Config (addDefaultPort b)"
proof (cases "newSRP e (Config b) (Password (Config b))")
  case (Inl err)
  then show ?thesis by (simp add: CreateAccount_def)
next
  case (Inr srp)
  obtain r b1 w1 where d: "Dial e b w = (r, b1, w1)"
    by (cases "Dial e b w") auto
  have b1: "b1 = addDefaultPort b"
    using Dial_result_client [OF d] .
  show ?thesis
    using Inr d b1
    by (auto simp: CreateAccount_def split: sum.splits result.splits prod.splits if_splits)
qed

lemma ChangePassword_client_cases:
  "(fst (ChangePassword e np b w) \<noteq> Ok ()
      \<longrightarrow> fst (snd (ChangePassword e np b w)) = b
        \<or> fst (snd (ChangePassword e np b w)) = addDefaultPort b)
 \<and> (fst (ChangePassword e np b w) = Ok ()
      \<longrightarrow> fst (snd (ChangePassword e np b w))
          = (addDefaultPort b)\<lparr>Config := (Config (addDefaultPort b))\<lparr>Password := np\<rparr>\<rparr>)"
  by (auto simp: ChangePassword_def dest: Dial_result_client
           split: sum.splits result.splits prod.splits if_splits)

text \<open>
  C8, amended. \<open>Dial\<close>, \<open>Logon\<close>, \<open>CreateAccount\<close> and \<open>ChangePassword\<close> leave every
  field of \<open>Config\<close> other than \<open>ServerAddr\<close> and \<open>Password\<close> as it was; \<open>ServerAddr\<close>
  is unchanged or, when it held no colon, extended by \<open>:6112\<close>; \<open>Password\<close> is unchanged
  by \<open>Dial\<close>, \<open>Logon\<close> and \<open>CreateAccount\<close>, and after \<open>ChangePassword\<close> it is the new
  password exactly when the call returned \<open>nil\<close>.
\<close>

theorem handshake_changes_only_addr_and_password:
  "config_frame (Config b) (Config (fst (snd (Dial e b w))))
   \<and> Password (Config (fst (snd (Dial e b w)))) = Password (Config b)
   \<and> config_frame (Config b) (Config (fst (snd (Logon e b w))))
   \<and> Password (Config (fst (snd (Logon e b w)))) = Password (Config b)
   \<and> config_frame (Config b) (Config (fst (snd (CreateAccount e b w))))
   \<and> Password (Config (fst (snd (CreateAccount e b w)))) = Password (Config b)
   \<and> config_frame (Config b)
        ((Config (fst (snd (ChangePassword e np b w))))\<lparr>Password := Password (Config b)\<rparr>)
   \<and> Password (Config (fst (snd (ChangePassword e np b w))))
        = (if fst (ChangePassword e np b w) = Ok () then np else Password (Config b))"
proof -
  have f: "config_frame (Config b) c \<and> Password c = Password (Config b)"
    if "c = Config b \<or> c = Config (addDefaultPort b)" for c
    using that config_frame_refl config_frame_addDefaultPort addDefaultPort_Password by auto
  have d: "config_frame (Config b) (Config (fst (snd (Dial e b w))))
      \<and> Password (Config (fst (snd (Dial e b w)))) = Password (Config b)"
    by (rule f) (simp add: Dial_client)
  have l: "config_frame (Config b) (Config (fst (snd (Logon e b w))))
      \<and> Password (Config (fst (snd (Logon e b w)))) = Password (Config b)"
    by (rule f) (rule Logon_Config)
  have c: "config_frame (Config b) (Config (fst (snd (CreateAccount e b w))))
      \<and> Password (Config (fst (snd (CreateAccount e b w)))) = Password (Config b)"
    by (rule f) (rule CreateAccount_Config)
  have p1: "config_frame (Config b)
        ((Config (fst (snd (ChangePassword e np b w))))\<lparr>Password := Password (Config b)\<rparr>)"
  proof (cases "fst (ChangePassword e np b w) = Ok ()")
    case True
    then have "Config (fst (snd (ChangePassword e np b w)))
        = (Config (addDefaultPort b))\<lparr>Password := np\<rparr>"
      using ChangePassword_client_cases [of e np b w] by simp
    then show ?thesis
      by (simp add: config_frame_def addDefaultPort_def)
  next
    case False
    then have "fst (snd (ChangePassword e np b w)) = b
        \<or> fst (snd (ChangePassword e np b w)) = addDefaultPort b"
      using ChangePassword_client_cases [of e np b w] by simp
    then show ?thesis
      by (auto simp: config_frame_def addDefaultPort_def)
  qed
  have p2: "Password (Config (fst (snd (ChangePassword e np b w))))
        = (if fst (ChangePassword e np b w) = Ok () then np else Password (Config b))"
  proof (cases "fst (ChangePassword e np b w) = Ok ()")
    case True
    then have "Config (fst (snd (ChangePassword e np b w)))
        = (Config (addDefaultPort b))\<lparr>Password := np\<rparr>"
      using ChangePassword_client_cases [of e np b w] by simp
    with True show ?thesis by simp
  next
    case False
    then have "fst (snd (ChangePassword e np b w)) = b
        \<or> fst (snd (ChangePassword e np b w)) = addDefaultPort b"
      using ChangePassword_client_cases [of e np b w] by simp
    with False show ?thesis
      by (auto simp: addDefaultPort_Password)
  qed
  from d l c p1 p2 show ?thesis by blast
qed

text \<open>
  C8, as stated, fails: \<open>Dial\<close> on a client configured with the server address
  \<open>europe.battle.net\<close> stores \<open>europe.battle.net:6112\<close> in \<open>Config.ServerAddr\<close>.
\<close>

theorem Dial_appends_default_port_counterexample:
  "Config (fst (snd (Dial example_env example_client
      (scripted_server [bncs_AuthInfoResp example_auth_info,
                        bncs_AuthCheckResp \<lparr>authCheck_Result = AuthSuccess\<rparr>]))))
   \<noteq> Config example_client"
  by (simp add: eval_defs)

text \<open>
  C10. When \<open>FilterChat s\<close> is empty, \<open>Say s\<close> returns \<open>nil\<close> and leaves the connection
  untouched: nothing is sent. When it is not empty, \<open>Say s\<close> is one rate-limited send of a
  \<open>ChatCommand\<close> carrying the filtered text.
\<close>

theorem Say_sends_only_nonempty:
  "(FilterChat Replace IsPrint s = [] \<longrightarrow> Say Replace IsPrint s w = (None, w))
   \<and> (FilterChat Replace IsPrint s \<noteq> [] \<longrightarrow>
        Say Replace IsPrint s w = SendRL (bncs_ChatCommand (FilterChat Replace IsPrint s)) w
        \<and> trace (snd (Say Replace IsPrint s w))
            = trace w @ [sent_rl (bncs_ChatCommand (FilterChat Replace IsPrint s))])"
  by (auto simp: Say_def SendRL_def transmit_def Let_def split: list.splits option.splits)




text \<open>
  A run of C1: the server reports success at every step and sends the counter-proof
  \<open>[0]\<close>, which does not verify.
\<close>

theorem Logon_fails_closed_on_bad_server_proof_witness:
  "Logon example_env example_client
     (scripted_server
        [bncs_AuthInfoResp example_auth_info,
         bncs_AuthCheckResp \<lparr>authCheck_Result = AuthSuccess\<rparr>,
         bncs_AuthAccountLogonResp
           \<lparr>logon_Result = LogonSuccess, logon_Salt = [5], logon_ServerKey = [6]\<rparr>,
         bncs_AuthAccountLogonProofResp
           \<lparr>proof_Result = LogonProofSuccess, proof_ServerPasswordProof = [0]\<rparr>])
   = (Err ErrPasswordVerification, addDefaultPort example_client,
      \<lparr>trace =
         [dialed \<lparr>IP = [10, 0, 0, 1], Port = 6112\<rparr>, wrote_greeting,
          sent (bncs_AuthInfoReq (Platform (Config example_client))),
          waited (Timeout 10),
          sent (bncs_AuthCheckReq 1600000000 ''war3.exe'' 1 1 [] ''gowarcraft3''),
          waited (Timeout 10),
          sent (bncs_AuthAccountLogonReq [1] ''bot''),
          waited (Timeout 15),
          sent (bncs_AuthAccountLogonProofReq [2]),
          waited (Timeout 10), closed, freed],
       inbox = [], sends = []\<rparr>)"
proof -
  let ?W = "scripted_server
        [bncs_AuthInfoResp example_auth_info,
         bncs_AuthCheckResp \<lparr>authCheck_Result = AuthSuccess\<rparr>,
         bncs_AuthAccountLogonResp
           \<lparr>logon_Result = LogonSuccess, logon_Salt = [5], logon_ServerKey = [6]\<rparr>,
         bncs_AuthAccountLogonProofResp
           \<lparr>proof_Result = LogonProofSuccess, proof_ServerPasswordProof = [0]\<rparr>]"
  let ?srp = "map of_char ''pw'' :: bytes"
  let ?logon = "\<lparr>logon_Result = LogonSuccess, logon_Salt = [5], logon_ServerKey = [6]\<rparr>"
  let ?pr = "\<lparr>proof_Result = LogonProofSuccess, proof_ServerPasswordProof = [0]\<rparr>"
  let ?D = "Dial example_env example_client ?W"
  let ?L = "sendLogon example_env (Config (fst (snd ?D))) ?srp (snd (snd ?D))"
  let ?P = "sendLogonProof example_env ?srp ?logon (snd ?L)"
  have h1: "newSRP example_env (Config example_client) (Password (Config example_client))
      = Inr ?srp"
    by (simp add: eval_defs)
  have h2: "?D = (Ok (), fst (snd ?D), snd (snd ?D))"
    by (simp add: eval_defs)
  have h3: "?L = (Ok ?logon, snd ?L)"
    by (simp add: eval_defs)
  have h4: "logon_Result ?logon = LogonSuccess"
    by simp
  have h5: "?P = (Ok (?pr, ?srp), snd ?P)"
    by (simp add: eval_defs)
  have h6: "proof_Result ?pr = LogonProofSuccess"
    by simp
  have h7: "\<not> VerifyPassword example_env ?srp (proof_ServerPasswordProof ?pr)"
    by (simp add: example_env_def)
  have "Logon example_env example_client ?W
      = (Err ErrPasswordVerification, fst (snd ?D), record_action freed (Close (snd ?P)))"
    using Logon_fails_closed_on_bad_server_proof [OF h1 h2 h3 h4 h5 h6 h7] by simp
  then show ?thesis
    by (simp add: eval_defs)
qed


text \<open>
  A run of C6: the server answers the version check with code 257 after a ping; the
  trace ends with the auth-check request, its wait, \<open>closed\<close> and \<open>freed\<close>, and the
  logon response that the server had ready is never read.
\<close>

theorem Logon_stops_at_failed_auth_check_witness:
  "Logon example_env example_client
     (scripted_server
        [bncs_Ping 9, bncs_AuthInfoResp example_auth_info,
         bncs_AuthCheckResp \<lparr>authCheck_Result = AuthResultOther 257\<rparr>,
         bncs_AuthAccountLogonResp
           \<lparr>logon_Result = LogonSuccess, logon_Salt = [5], logon_ServerKey = [6]\<rparr>])
   = (Err (ErrOther 1), addDefaultPort example_client,
      \<lparr>trace =
         [dialed \<lparr>IP = [10, 0, 0, 1], Port = 6112\<rparr>, wrote_greeting,
          sent (bncs_AuthInfoReq (Platform (Config example_client))),
          waited (Timeout 10), sent (bncs_Ping 9), waited NoTimeout,
          sent (bncs_AuthCheckReq 1600000000 ''war3.exe'' 1 1 [] ''gowarcraft3''),
          waited (Timeout 10), closed, freed],
       inbox =
         [Inr (bncs_AuthAccountLogonResp
                 \<lparr>logon_Result = LogonSuccess, logon_Salt = [5], logon_ServerKey = [6]\<rparr>)],
       sends = []\<rparr>)"
proof -
  let ?W = "scripted_server
        [bncs_Ping 9, bncs_AuthInfoResp example_auth_info,
         bncs_AuthCheckResp \<lparr>authCheck_Result = AuthResultOther 257\<rparr>,
         bncs_AuthAccountLogonResp
           \<lparr>logon_Result = LogonSuccess, logon_Salt = [5], logon_ServerKey = [6]\<rparr>]"
  let ?srp = "map of_char ''pw'' :: bytes"
  let ?addr = "\<lparr>IP = [10, 0, 0, 1], Port = 6112\<rparr>"
  let ?b = "Config (addDefaultPort example_client)"
  let ?A = "sendAuthInfo ?b (record_action wrote_greeting (record_action (dialed ?addr) ?W))"
  let ?check = "\<lparr>authCheck_Result = AuthResultOther 257\<rparr>"
  let ?C = "sendAuthCheck example_env ?b (nat (time_Now_Unix example_env mod 2 ^ 32))
              example_auth_info (snd ?A)"
  have h1: "newSRP example_env (Config example_client) (Password (Config example_client))
      = Inr ?srp"
    by (simp add: eval_defs)
  have h2: "ResolveTCPAddr example_env (ServerAddr ?b) = Inr ?addr"
    by (simp add: example_env_def)
  have h3: "DialTCP example_env ?addr = None"
    by (simp add: example_env_def)
  have h4: "?A = (Ok example_auth_info, snd ?A)"
    by (simp add: eval_defs)
  have h5: "\<not> (VerifySignature ?b
      \<and> \<not> VerifyServerSignature example_env (IP ?addr) (ServerSignature example_auth_info))"
    by (simp add: example_env_def)
  have h6: "?C = (Ok ?check, snd ?C)"
    by (simp add: eval_defs)
  have h7: "authCheck_Result ?check \<noteq> AuthSuccess"
    by simp
  have "Logon example_env example_client ?W
      = (Err (AuthResultToError example_env (authCheck_Result ?check)),
         addDefaultPort example_client, record_action freed (Close (snd ?C)))"
    using Logon_stops_at_failed_auth_check [OF h1 h2 h3 h4 h5 h6 h7] by simp
  then show ?thesis
    by (simp add: eval_defs)
qed

text \<open>
  Two runs of C9: with the right counter-proof the password becomes \<open>new\<close>; with a wrong
  one it stays \<open>pw\<close>.
\<close>

theorem ChangePassword_sets_password_only_on_success_witness:
  "Password (Config (fst (snd (ChangePassword example_env ''new'' example_client
     (scripted_server
        [bncs_AuthInfoResp example_auth_info,
         bncs_AuthCheckResp \<lparr>authCheck_Result = AuthSuccess\<rparr>,
         bncs_AuthAccountChangePassResp
           \<lparr>logon_Result = LogonSuccess, logon_Salt = [5], logon_ServerKey = [6]\<rparr>,
         bncs_AuthAccountChangePassProofResp
           \<lparr>proof_Result = LogonProofSuccess, proof_ServerPasswordProof = [112, 119]\<rparr>])))))
   = ''new''
   \<and> Password (Config (fst (snd (ChangePassword example_env ''new'' example_client
     (scripted_server
        [bncs_AuthInfoResp example_auth_info,
         bncs_AuthCheckResp \<lparr>authCheck_Result = AuthSuccess\<rparr>,
         bncs_AuthAccountChangePassResp
           \<lparr>logon_Result = LogonSuccess, logon_Salt = [5], logon_ServerKey = [6]\<rparr>,
         bncs_AuthAccountChangePassProofResp
           \<lparr>proof_Result = LogonProofSuccess, proof_ServerPasswordProof = [0]\<rparr>])))))
   = ''pw''"
proof -
  let ?good = "scripted_server
        [bncs_AuthInfoResp example_auth_info,
         bncs_AuthCheckResp \<lparr>authCheck_Result = AuthSuccess\<rparr>,
         bncs_AuthAccountChangePassResp
           \<lparr>logon_Result = LogonSuccess, logon_Salt = [5], logon_ServerKey = [6]\<rparr>,
         bncs_AuthAccountChangePassProofResp
           \<lparr>proof_Result = LogonProofSuccess, proof_ServerPasswordProof = [112, 119]\<rparr>]"
  let ?bad = "scripted_server
        [bncs_AuthInfoResp example_auth_info,
         bncs_AuthCheckResp \<lparr>authCheck_Result = AuthSuccess\<rparr>,
         bncs_AuthAccountChangePassResp
           \<lparr>logon_Result = LogonSuccess, logon_Salt = [5], logon_ServerKey = [6]\<rparr>,
         bncs_AuthAccountChangePassProofResp
           \<lparr>proof_Result = LogonProofSuccess, proof_ServerPasswordProof = [0]\<rparr>]"
  have ok: "fst (ChangePassword example_env ''new'' example_client ?good) = Ok ()"
    by (simp add: eval_defs)
  have failed: "fst (ChangePassword example_env ''new'' example_client ?bad) \<noteq> Ok ()"
    by (simp add: eval_defs)
  have old: "Password (Config example_client) = ''pw''"
    by (simp add: example_client_def)
  show ?thesis
    using ChangePassword_sets_password_only_on_success
            [of example_env "''new''" example_client ?good]
          ChangePassword_sets_password_only_on_success
            [of example_env "''new''" example_client ?bad]
          ok failed old
    by simp
qed

text \<open>
  A run of C8, amended: a logon that times out at the version check leaves \<open>Username\<close>
  and \<open>Password\<close> as configured.
\<close>

theorem handshake_changes_only_addr_and_password_witness:
  "Username (Config (fst (snd (Logon example_env example_client
      (scripted_server [bncs_AuthInfoResp example_auth_info]))))) = ''bot''
   \<and> Password (Config (fst (snd (Logon example_env example_client
      (scripted_server [bncs_AuthInfoResp example_auth_info]))))) = ''pw''"
proof -
  let ?c = "Config (fst (snd (Logon example_env example_client
      (scripted_server [bncs_AuthInfoResp example_auth_info]))))"
  have frame: "config_frame (Config example_client) ?c"
    and pw: "Password ?c = Password (Config example_client)"
    using handshake_changes_only_addr_and_password
            [of example_client example_env
                "scripted_server [bncs_AuthInfoResp example_auth_info]" "''new''"]
    by simp_all
  from frame have "Username (?c\<lparr>ServerAddr := ServerAddr (Config example_client),
      Password := Password (Config example_client)\<rparr>) = Username (Config example_client)"
    by (simp add: config_frame_def)
  with pw show ?thesis
    by (simp add: example_client_def)
qed

text \<open>
  Two runs of C10: a message of control characters sends nothing; \<open>hi\<close> followed by a
  line feed sends \<open>hi\<close>.
\<close>

theorem Say_sends_only_nonempty_witness:
  "Say (\<lambda>s. s) (\<lambda>r. 32 \<le> r \<and> r < 127) [CHR 0x0A, CHR 0x07] (scripted_server [])
     = (None, scripted_server [])
   \<and> trace (snd (Say (\<lambda>s. s) (\<lambda>r. 32 \<le> r \<and> r < 127) (''hi'' @ [CHR 0x0A])
                     (scripted_server [])))
     = [sent_rl (bncs_ChatCommand ''hi'')]"
proof -
  have e: "FilterChat (\<lambda>s. s) (\<lambda>r. 32 \<le> r \<and> r < 127) [CHR 0x0A, CHR 0x07] = []"
    by (simp add: FilterChat_def strings_Map_def Let_def)
  have h: "FilterChat (\<lambda>s. s) (\<lambda>r. 32 \<le> r \<and> r < 127) (''hi'' @ [CHR 0x0A]) = ''hi''"
    by (simp add: FilterChat_def strings_Map_def Let_def EncodeRune_def char_of_eq_iff)
  show ?thesis
    using Say_sends_only_nonempty
            [of "\<lambda>s. s" "\<lambda>r. 32 \<le> r \<and> r < 127" "[CHR 0x0A, CHR 0x07]" "scripted_server []"]
          Say_sends_only_nonempty
            [of "\<lambda>s. s" "\<lambda>r. 32 \<le> r \<and> r < 127" "''hi'' @ [CHR 0x0A]" "scripted_server []"]
          e h
    by (simp add: scripted_server_def SendRL_def transmit_def record_action_def)
qed

section \<open>The request/response step of \<open>sendAuthInfo\<close>\<close>

lemma Fire_fields [simp]:
  "trace (Fire p w) = trace w @ [fired p]"
  "inbox (Fire p w) = inbox w"
  "sends (Fire p w) = sends w"
  by (simp_all add: Fire_def)

lemma isPing_not_resp: "isPing p \<Longrightarrow> isAuthInfoResp p = None"
  by (cases p) (simp_all add: isPing_def isAuthInfoResp_def)

lemma NextPacket_Nil:
  "inbox w = [] \<Longrightarrow>
   NextPacket t w =
     (case t of NoTimeout \<Rightarrow> Hang | Timeout n \<Rightarrow> Err ErrTimeout, record_action (waited t) w)"
  by (simp add: NextPacket_def split: timeout.splits)

lemma NextPacket_Inl:
  "inbox w = Inl err # rs \<Longrightarrow>
   NextPacket t w = (Err err, record_action (waited t) (w\<lparr>inbox := rs\<rparr>))"
  by (simp add: NextPacket_def)

lemma NextPacket_Inr:
  "inbox w = Inr p # rs \<Longrightarrow>
   NextPacket t w = (Ok p, record_action (waited t) (w\<lparr>inbox := rs\<rparr>))"
  by (simp add: NextPacket_def)

lemma world_eqI:
  "trace w = tr \<Longrightarrow> inbox w = ib \<Longrightarrow> sends w = ss
   \<Longrightarrow> w = \<lparr>trace = tr, inbox = ib, sends = ss\<rparr>"
  by (cases w) simp

lemma Send_reached_ok:
  assumes "\<forall>r\<in>set (take (Suc k) (sends w)). r = None"
  shows "Send p w = (None, \<lparr>trace = trace w @ [sent p], inbox = inbox w,
                             sends = drop (Suc 0) (sends w)\<rparr>)"
  using assms
  by (cases "sends w") (simp_all add: Send_def transmit_def record_action_def world_eqI)

lemma Send_fails:
  assumes "sends w = Some err # ss"
  shows "Send p w = (Some err, \<lparr>trace = trace w @ [sent p], inbox = inbox w, sends = ss\<rparr>)"
  using assms by (simp add: Send_def transmit_def record_action_def world_eqI)

lemma authInfoLoop_refines:
  assumes "\<forall>r\<in>set (take (spec_echoes (inbox w)) (sends w)). r = None"
  shows "authInfoLoop (fst (NextPacket t w)) (snd (NextPacket t w))
           = (spec_first_response t (inbox w),
              \<lparr>trace = trace w @ spec_step_actions t (inbox w),
               inbox = spec_unread (inbox w),
               sends = drop (spec_echoes (inbox w)) (sends w)\<rparr>)"
  using assms
proof (induction "inbox w" arbitrary: w t)
  case Nil
  then have "inbox w = []" by simp
  then show ?case
    by (cases t) (simp_all add: NextPacket_Nil world_eqI)
next
  case (Cons x xs)
  then have inb: "inbox w = x # xs" by simp
  show ?case
  proof (cases x)
    case (Inl err)
    with inb show ?thesis by (simp add: NextPacket_Inl world_eqI)
  next
    case (Inr pkt)
    let ?w1 = "record_action (waited t) (w\<lparr>inbox := xs\<rparr>)"
    have np: "NextPacket t w = (Ok pkt, ?w1)"
      using inb Inr by (simp add: NextPacket_Inr)
    show ?thesis
    proof (cases "isPing pkt")
      case True
      have ech: "spec_echoes (inbox w) = Suc (spec_echoes xs)"
        using inb Inr True by simp
      have pre: "\<forall>r\<in>set (take (Suc (spec_echoes xs)) (sends ?w1)). r = None"
        using Cons.prems ech by simp
      let ?w2 = "\<lparr>trace = trace ?w1 @ [sent pkt], inbox = inbox ?w1,
                   sends = drop (Suc 0) (sends ?w1)\<rparr>"
      have snd: "Send pkt ?w1 = (None, ?w2)"
        by (rule Send_reached_ok [OF pre])
      have ib: "xs = inbox ?w2" by simp
      have rest: "\<forall>r\<in>set (take (spec_echoes (inbox ?w2)) (sends ?w2)). r = None"
      proof
        fix r
        assume "r \<in> set (take (spec_echoes (inbox ?w2)) (sends ?w2))"
        then have "r \<in> set (take (spec_echoes xs) (drop (Suc 0) (sends w)))" by simp
        then have "r \<in> set (take (Suc (spec_echoes xs)) (sends w))"
          by (cases "sends w") simp_all
        with Cons.prems ech show "r = None" by simp
      qed
      have "authInfoLoop (fst (NextPacket NoTimeout ?w2)) (snd (NextPacket NoTimeout ?w2))
          = (spec_first_response NoTimeout (inbox ?w2),
             \<lparr>trace = trace ?w2 @ spec_step_actions NoTimeout (inbox ?w2),
              inbox = spec_unread (inbox ?w2),
              sends = drop (spec_echoes (inbox ?w2)) (sends ?w2)\<rparr>)"
        by (rule Cons.hyps(1) [OF ib rest])
      then show ?thesis
        using np True snd inb Inr isPing_not_resp [OF True] by simp
    next
      case False
      show ?thesis
      proof (cases "isAuthInfoResp pkt")
        case None
        let ?w2 = "Fire pkt ?w1"
        have ib: "xs = inbox ?w2" by simp
        have rest: "\<forall>r\<in>set (take (spec_echoes (inbox ?w2)) (sends ?w2)). r = None"
          using Cons.prems inb Inr False None by simp
        have "authInfoLoop (fst (NextPacket NoTimeout ?w2)) (snd (NextPacket NoTimeout ?w2))
            = (spec_first_response NoTimeout (inbox ?w2),
               \<lparr>trace = trace ?w2 @ spec_step_actions NoTimeout (inbox ?w2),
                inbox = spec_unread (inbox ?w2),
                sends = drop (spec_echoes (inbox ?w2)) (sends ?w2)\<rparr>)"
          by (rule Cons.hyps(1) [OF ib rest])
        then show ?thesis
          using np False None inb Inr by simp
      next
        case (Some p)
        then show ?thesis
          using np False inb Inr by (simp add: world_eqI)
      qed
    qed
  qed
qed

lemma authInfoLoop_echo_fails:
  assumes "\<forall>p\<in>set pre. isAuthInfoResp p = None"
    and "isPing ping"
    and "inbox w = map Inr pre @ Inr ping # rest"
    and "sends w = replicate (length (filter isPing pre)) None @ Some err # ss"
  shows "authInfoLoop (fst (NextPacket t w)) (snd (NextPacket t w))
           = (Err err,
              \<lparr>trace = trace w @ spec_step_actions t (map Inr pre) @ [sent ping],
               inbox = rest, sends = ss\<rparr>)"
  using assms
proof (induction pre arbitrary: w t)
  case Nil
  let ?w1 = "record_action (waited t) (w\<lparr>inbox := rest\<rparr>)"
  have np: "NextPacket t w = (Ok ping, ?w1)"
    using Nil.prems(3) by (simp add: NextPacket_Inr)
  have "sends ?w1 = Some err # ss"
    using Nil.prems(4) by simp
  from Send_fails [OF this, of ping] show ?case
    using Nil.prems(2) np by simp
next
  case (Cons p pre)
  let ?w1 = "record_action (waited t) (w\<lparr>inbox := map Inr pre @ Inr ping # rest\<rparr>)"
  have np: "NextPacket t w = (Ok p, ?w1)"
    using Cons.prems(3) by (simp add: NextPacket_Inr)
  have none: "isAuthInfoResp p = None" and rest_none: "\<forall>q\<in>set pre. isAuthInfoResp q = None"
    using Cons.prems(1) by simp_all
  show ?case
  proof (cases "isPing p")
    case True
    let ?w2 = "\<lparr>trace = trace ?w1 @ [sent p], inbox = inbox ?w1,
                 sends = drop (Suc 0) (sends ?w1)\<rparr>"
    have sw: "sends ?w1 = None # replicate (length (filter isPing pre)) None @ Some err # ss"
      using Cons.prems(4) True by simp
    then have "\<forall>r\<in>set (take (Suc 0) (sends ?w1)). r = None" by simp
    then have snd: "Send p ?w1 = (None, ?w2)"
      by (rule Send_reached_ok)
    have ib: "inbox ?w2 = map Inr pre @ Inr ping # rest" by simp
    have s2: "sends ?w2 = replicate (length (filter isPing pre)) None @ Some err # ss"
      using sw by simp
    from Cons.IH [OF rest_none Cons.prems(2) ib s2, of NoTimeout]
    show ?thesis
      using np True snd by simp
  next
    case False
    let ?w2 = "Fire p ?w1"
    have ib: "inbox ?w2 = map Inr pre @ Inr ping # rest" by simp
    have s2: "sends ?w2 = replicate (length (filter isPing pre)) None @ Some err # ss"
      using Cons.prems(4) False by simp
    from Cons.IH [OF rest_none Cons.prems(2) ib s2, of NoTimeout]
    show ?thesis
      using np False none by simp
  qed
qed

text \<open>The three cases of the step between them cover every world.\<close>

lemma first_failed_send:
  assumes "\<not> (\<forall>r\<in>set (take n xs). r = None)"
  shows "\<exists>k err ss. k < n \<and> xs = replicate k None @ Some err # ss"
  using assms
proof (induction xs arbitrary: n)
  case Nil
  then show ?case by simp
next
  case (Cons x xs)
  then obtain m where n: "n = Suc m"
    by (cases n) auto
  show ?case
  proof (cases x)
    case None
    with Cons.prems n have "\<not> (\<forall>r\<in>set (take m xs). r = None)" by simp
    from Cons.IH [OF this] obtain k err ss
      where "k < m" "xs = replicate k None @ Some err # ss" by blast
    then have "Suc k < n \<and> x # xs = replicate (Suc k) None @ Some err # ss"
      using None n by simp
    then show ?thesis by blast
  next
    case (Some err)
    then have "0 < n \<and> x # xs = replicate 0 None @ Some err # xs"
      using n by simp
    then show ?thesis by blast
  qed
qed

lemma echoed_ping:
  assumes "k < spec_echoes rs"
  shows "\<exists>pre ping rest. rs = map Inr pre @ Inr ping # rest \<and> isPing ping
           \<and> (\<forall>p\<in>set pre. isAuthInfoResp p = None) \<and> length (filter isPing pre) = k"
  using assms
proof (induction rs arbitrary: k)
  case Nil
  then show ?case by simp
next
  case (Cons x rs)
  show ?case
  proof (cases x)
    case (Inl err)
    with Cons.prems show ?thesis by simp
  next
    case (Inr pkt)
    show ?thesis
    proof (cases "isPing pkt")
      case True
      show ?thesis
      proof (cases k)
        case 0
        have "x # rs = map Inr [] @ Inr pkt # rs \<and> isPing pkt
            \<and> (\<forall>p\<in>set []. isAuthInfoResp p = None) \<and> length (filter isPing []) = k"
          using Inr True 0 by simp
        then show ?thesis by blast
      next
        case (Suc j)
        with Cons.prems Inr True have "j < spec_echoes rs" by simp
        from Cons.IH [OF this] obtain pre ping rest
          where r: "rs = map Inr pre @ Inr ping # rest" "isPing ping"
            "\<forall>p\<in>set pre. isAuthInfoResp p = None" "length (filter isPing pre) = j"
          by blast
        have "x # rs = map Inr (pkt # pre) @ Inr ping # rest \<and> isPing ping
            \<and> (\<forall>p\<in>set (pkt # pre). isAuthInfoResp p = None)
            \<and> length (filter isPing (pkt # pre)) = k"
          using r Inr True Suc isPing_not_resp [OF True] by simp
        then show ?thesis by blast
      qed
    next
      case False
      show ?thesis
      proof (cases "isAuthInfoResp pkt")
        case None
        with Cons.prems Inr False have "k < spec_echoes rs" by simp
        from Cons.IH [OF this] obtain pre ping rest
          where r: "rs = map Inr pre @ Inr ping # rest" "isPing ping"
            "\<forall>p\<in>set pre. isAuthInfoResp p = None" "length (filter isPing pre) = k"
          by blast
        have "x # rs = map Inr (pkt # pre) @ Inr ping # rest \<and> isPing ping
            \<and> (\<forall>p\<in>set (pkt # pre). isAuthInfoResp p = None)
            \<and> length (filter isPing (pkt # pre)) = k"
          using r Inr False None by simp
        then show ?thesis by blast
      next
        case (Some p)
        with Cons.prems Inr False show ?thesis by simp
      qed
    qed
  qed
qed

lemma step_cases_exhaustive:
  "(\<forall>r\<in>set (take (Suc (spec_echoes (inbox w))) (sends w)). r = None)
   \<or> (\<exists>err ss. sends w = Some err # ss)
   \<or> (\<exists>pre ping rest err ss.
        (\<forall>p\<in>set pre. isAuthInfoResp p = None) \<and> isPing ping
        \<and> inbox w = map Inr pre @ Inr ping # rest
        \<and> sends w = replicate (Suc (length (filter isPing pre))) None @ Some err # ss)"
proof (cases "\<forall>r\<in>set (take (Suc (spec_echoes (inbox w))) (sends w)). r = None")
  case True
  then show ?thesis by blast
next
  case False
  from first_failed_send [OF False] obtain k err ss
    where k: "k < Suc (spec_echoes (inbox w))" and s: "sends w = replicate k None @ Some err # ss"
    by blast
  show ?thesis
  proof (cases k)
    case 0
    with s have "sends w = Some err # ss" by simp
    then show ?thesis by blast
  next
    case (Suc j)
    with k have "j < spec_echoes (inbox w)" by simp
    from echoed_ping [OF this] obtain pre ping rest
      where r: "inbox w = map Inr pre @ Inr ping # rest" "isPing ping"
        "\<forall>p\<in>set pre. isAuthInfoResp p = None" "length (filter isPing pre) = j"
      by blast
    have "(\<forall>p\<in>set pre. isAuthInfoResp p = None) \<and> isPing ping
        \<and> inbox w = map Inr pre @ Inr ping # rest
        \<and> sends w = replicate (Suc (length (filter isPing pre))) None @ Some err # ss"
      using r s Suc by simp
    then show ?thesis by blast
  qed
qed

text \<open>
  C3, amended. \<open>sendAuthInfo\<close> sends its request first, and every world falls under
  one of three cases (the last conjunct), each of which fixes the result and the whole
  connection after the step. (1) When the sends that the step reaches succeed (the request and one echo per
  \<open>Ping\<close> before the end of the step; later entries of the write script are not
  looked at), the step returns what the specification's reading of the read script
  returns, the first \<open>AuthInfoResp\<close> received or the first read error; its actions
  after the request are those of the specification, a wait bounded by 10 seconds, then
  for each packet before the response the echo of a \<open>Ping\<close> or the dispatch of any
  other packet to the event bus, each followed by a wait with no timeout; the rest of
  both scripts is left as it is. (2) When the send of the request fails, the step returns
  that error at once: nothing is read. (3) When the echo of a \<open>Ping\<close> fails before
  the response has arrived, the step returns the error of that send at once: the failed
  echo is its last action, and the packets after the \<open>Ping\<close> stay unread.
\<close>

theorem sendAuthInfo_request_response:
  "((\<forall>r\<in>set (take (Suc (spec_echoes (inbox w))) (sends w)). r = None) \<longrightarrow>
      sendAuthInfo b w
        = (spec_first_response (Timeout 10) (inbox w),
           \<lparr>trace = trace w @ sent (bncs_AuthInfoReq (Platform b))
                               # spec_step_actions (Timeout 10) (inbox w),
            inbox = spec_unread (inbox w),
            sends = drop (Suc (spec_echoes (inbox w))) (sends w)\<rparr>))
   \<and> (\<forall>err ss. sends w = Some err # ss \<longrightarrow>
        sendAuthInfo b w
          = (Err err, \<lparr>trace = trace w @ [sent (bncs_AuthInfoReq (Platform b))],
                       inbox = inbox w, sends = ss\<rparr>))
   \<and> (\<forall>pre ping rest err ss.
        (\<forall>p\<in>set pre. isAuthInfoResp p = None) \<and> isPing ping
        \<and> inbox w = map Inr pre @ Inr ping # rest
        \<and> sends w = replicate (Suc (length (filter isPing pre))) None @ Some err # ss
        \<longrightarrow> sendAuthInfo b w
              = (Err err,
                 \<lparr>trace = trace w @ sent (bncs_AuthInfoReq (Platform b))
                                     # spec_step_actions (Timeout 10) (map Inr pre)
                                     @ [sent ping],
                  inbox = rest, sends = ss\<rparr>))
   \<and> ((\<forall>r\<in>set (take (Suc (spec_echoes (inbox w))) (sends w)). r = None)
      \<or> (\<exists>err ss. sends w = Some err # ss)
      \<or> (\<exists>pre ping rest err ss.
           (\<forall>p\<in>set pre. isAuthInfoResp p = None) \<and> isPing ping
           \<and> inbox w = map Inr pre @ Inr ping # rest
           \<and> sends w = replicate (Suc (length (filter isPing pre))) None @ Some err # ss))"
proof (intro conjI allI impI)
  let ?req = "bncs_AuthInfoReq (Platform b)"
  let ?w1 = "\<lparr>trace = trace w @ [sent ?req], inbox = inbox w,
               sends = drop (Suc 0) (sends w)\<rparr>"
  assume a: "\<forall>r\<in>set (take (Suc (spec_echoes (inbox w))) (sends w)). r = None"
  have snd: "Send ?req w = (None, ?w1)"
    by (rule Send_reached_ok [OF a])
  have rest: "\<forall>r\<in>set (take (spec_echoes (inbox ?w1)) (sends ?w1)). r = None"
  proof
    fix r
    assume "r \<in> set (take (spec_echoes (inbox ?w1)) (sends ?w1))"
    then have "r \<in> set (take (Suc (spec_echoes (inbox w))) (sends w))"
      by (cases "sends w") simp_all
    with a show "r = None" by simp
  qed
  have "sendAuthInfo b w
      = authInfoLoop (fst (NextPacket (Timeout 10) ?w1)) (snd (NextPacket (Timeout 10) ?w1))"
    using snd by (simp add: sendAuthInfo_def)
  also have "\<dots> = (spec_first_response (Timeout 10) (inbox ?w1),
             \<lparr>trace = trace ?w1 @ spec_step_actions (Timeout 10) (inbox ?w1),
              inbox = spec_unread (inbox ?w1),
              sends = drop (spec_echoes (inbox ?w1)) (sends ?w1)\<rparr>)"
    by (rule authInfoLoop_refines [OF rest])
  finally show "sendAuthInfo b w
        = (spec_first_response (Timeout 10) (inbox w),
           \<lparr>trace = trace w @ sent ?req # spec_step_actions (Timeout 10) (inbox w),
            inbox = spec_unread (inbox w),
            sends = drop (Suc (spec_echoes (inbox w))) (sends w)\<rparr>)"
    by simp
next
  fix err ss
  assume "sends w = Some err # ss"
  from Send_fails [OF this, of "bncs_AuthInfoReq (Platform b)"]
  show "sendAuthInfo b w
      = (Err err, \<lparr>trace = trace w @ [sent (bncs_AuthInfoReq (Platform b))],
                   inbox = inbox w, sends = ss\<rparr>)"
    by (simp add: sendAuthInfo_def)
next
  fix pre ping rest err ss
  let ?req = "bncs_AuthInfoReq (Platform b)"
  let ?w1 = "\<lparr>trace = trace w @ [sent ?req], inbox = inbox w,
               sends = drop (Suc 0) (sends w)\<rparr>"
  assume a: "(\<forall>p\<in>set pre. isAuthInfoResp p = None) \<and> isPing ping
        \<and> inbox w = map Inr pre @ Inr ping # rest
        \<and> sends w = replicate (Suc (length (filter isPing pre))) None @ Some err # ss"
  then have "\<forall>r\<in>set (take (Suc 0) (sends w)). r = None" by simp
  then have snd: "Send ?req w = (None, ?w1)"
    by (rule Send_reached_ok)
  have ib: "inbox ?w1 = map Inr pre @ Inr ping # rest"
    and s2: "sends ?w1 = replicate (length (filter isPing pre)) None @ Some err # ss"
    using a by simp_all
  have "sendAuthInfo b w
      = authInfoLoop (fst (NextPacket (Timeout 10) ?w1)) (snd (NextPacket (Timeout 10) ?w1))"
    using snd by (simp add: sendAuthInfo_def)
  also have "\<dots> = (Err err,
              \<lparr>trace = trace ?w1 @ spec_step_actions (Timeout 10) (map Inr pre) @ [sent ping],
               inbox = rest, sends = ss\<rparr>)"
    using a by (intro authInfoLoop_echo_fails [OF _ _ ib s2]) simp_all
  finally show "sendAuthInfo b w
              = (Err err,
                 \<lparr>trace = trace w @ sent ?req # spec_step_actions (Timeout 10) (map Inr pre)
                                     @ [sent ping],
                  inbox = rest, sends = ss\<rparr>)"
    by simp
next
  show "(\<forall>r\<in>set (take (Suc (spec_echoes (inbox w))) (sends w)). r = None)
      \<or> (\<exists>err ss. sends w = Some err # ss)
      \<or> (\<exists>pre ping rest err ss.
           (\<forall>p\<in>set pre. isAuthInfoResp p = None) \<and> isPing ping
           \<and> inbox w = map Inr pre @ Inr ping # rest
           \<and> sends w = replicate (Suc (length (filter isPing pre))) None @ Some err # ss)"
    by (rule step_cases_exhaustive)
qed


text \<open>
  C3, as stated, fails: the server sends a \<open>Ping\<close> and then the \<open>AuthInfoResp\<close>, no read
  fails, and the echo of the \<open>Ping\<close> cannot be written. The step returns the error of
  the write, which is neither the first \<open>AuthInfoResp\<close> nor a read error.
\<close>

theorem sendAuthInfo_send_error_counterexample:
  "fst (sendAuthInfo (Config example_client)
          \<lparr>trace = [],
           inbox = [Inr (bncs_Ping 1), Inr (bncs_AuthInfoResp example_auth_info)],
           sends = [None, Some (ErrOther 9)]\<rparr>)
   \<noteq> spec_first_response (Timeout 10)
        [Inr (bncs_Ping 1), Inr (bncs_AuthInfoResp example_auth_info)]"
  by (simp add: eval_defs)

text \<open>
  Two runs of C3, amended. In the first a ping and another packet precede the response
  and the write script holds a failure that the step never reaches. In the second the
  echo of the ping fails: the step ends there, with the response unread.
\<close>

theorem sendAuthInfo_request_response_witness:
  "sendAuthInfo (Config example_client)
     \<lparr>trace = [],
      inbox = [Inr (bncs_Ping 1), Inr (bncs_Other 3), Inr (bncs_AuthInfoResp example_auth_info),
               Inr (bncs_Other 4)],
      sends = [None, None, Some (ErrOther 9)]\<rparr>
   = (Ok example_auth_info,
      \<lparr>trace =
         [sent (bncs_AuthInfoReq (Platform (Config example_client))), waited (Timeout 10),
          sent (bncs_Ping 1), waited NoTimeout, fired (bncs_Other 3), waited NoTimeout],
       inbox = [Inr (bncs_Other 4)], sends = [Some (ErrOther 9)]\<rparr>)
   \<and> sendAuthInfo (Config example_client)
       \<lparr>trace = [],
        inbox = [Inr (bncs_Other 3), Inr (bncs_Ping 1),
                 Inr (bncs_AuthInfoResp example_auth_info)],
        sends = [None, Some (ErrOther 9)]\<rparr>
     = (Err (ErrOther 9),
        \<lparr>trace =
           [sent (bncs_AuthInfoReq (Platform (Config example_client))), waited (Timeout 10),
            fired (bncs_Other 3), waited NoTimeout, sent (bncs_Ping 1)],
         inbox = [Inr (bncs_AuthInfoResp example_auth_info)], sends = []\<rparr>)"
proof -
  let ?W = "\<lparr>trace = [],
      inbox = [Inr (bncs_Ping 1), Inr (bncs_Other 3), Inr (bncs_AuthInfoResp example_auth_info),
               Inr (bncs_Other 4)],
      sends = [None, None, Some (ErrOther 9)]\<rparr>"
  let ?V = "\<lparr>trace = [],
        inbox = [Inr (bncs_Other 3), Inr (bncs_Ping 1),
                 Inr (bncs_AuthInfoResp example_auth_info)],
        sends = [None, Some (ErrOther 9)]\<rparr>"
  have reached: "\<forall>r\<in>set (take (Suc (spec_echoes (inbox ?W))) (sends ?W)). r = None"
    by (simp add: isPing_def isAuthInfoResp_def)
  have first: "sendAuthInfo (Config example_client) ?W
   = (Ok example_auth_info,
      \<lparr>trace =
         [sent (bncs_AuthInfoReq (Platform (Config example_client))), waited (Timeout 10),
          sent (bncs_Ping 1), waited NoTimeout, fired (bncs_Other 3), waited NoTimeout],
       inbox = [Inr (bncs_Other 4)], sends = [Some (ErrOther 9)]\<rparr>)"
    using sendAuthInfo_request_response [of ?W "Config example_client"] reached
    by (simp add: isPing_def isAuthInfoResp_def)
  have echo: "(\<forall>p\<in>set [bncs_Other 3]. isAuthInfoResp p = None) \<and> isPing (bncs_Ping 1)
      \<and> inbox ?V = map Inr [bncs_Other 3] @ Inr (bncs_Ping 1)
                      # [Inr (bncs_AuthInfoResp example_auth_info)]
      \<and> sends ?V = replicate (Suc (length (filter isPing [bncs_Other 3]))) None
                      @ Some (ErrOther 9) # []"
    by (simp add: isPing_def isAuthInfoResp_def)
  have "sendAuthInfo (Config example_client) ?V
     = (Err (ErrOther 9),
        \<lparr>trace = trace ?V @ sent (bncs_AuthInfoReq (Platform (Config example_client)))
                             # spec_step_actions (Timeout 10) (map Inr [bncs_Other 3])
                             @ [sent (bncs_Ping 1)],
         inbox = [Inr (bncs_AuthInfoResp example_auth_info)], sends = []\<rparr>)"
    using sendAuthInfo_request_response [of ?W "Config example_client"]
      sendAuthInfo_request_response [of ?V "Config example_client"] echo
    by blast
  then have second: "sendAuthInfo (Config example_client) ?V
     = (Err (ErrOther 9),
        \<lparr>trace =
           [sent (bncs_AuthInfoReq (Platform (Config example_client))), waited (Timeout 10),
            fired (bncs_Other 3), waited NoTimeout, sent (bncs_Ping 1)],
         inbox = [Inr (bncs_AuthInfoResp example_auth_info)], sends = []\<rparr>)"
    by (simp add: isPing_def isAuthInfoResp_def)
  from first second show ?thesis by simp
qed

section \<open>The result of \<open>FilterChat\<close>\<close>

text \<open>Arithmetic of the bit fields of a rune.\<close>

lemma mod_shift:
  fixes x :: int
  assumes "0 \<le> x" "x < m" "k mod m = 0"
  shows "(k + x) mod m = x"
proof -
  have "(k + x) mod m = (k mod m + x mod m) mod m"
    by (simp add: mod_add_eq)
  also have "\<dots> = x mod m" using assms(3) by simp
  also have "\<dots> = x" using assms(1,2) by simp
  finally show ?thesis .
qed

lemma enc2_parts:
  fixes r :: int
  assumes "128 \<le> r" "r \<le> 2047"
  shows "2 \<le> r div 64" "r div 64 \<le> 31" "0 \<le> r mod 64" "r mod 64 \<le> 63"
    "r div 64 * 64 + r mod 64 = r"
  using assms by simp_all

lemma enc3_parts:
  fixes r :: int
  assumes "2048 \<le> r" "r \<le> 65535" "\<not> (55296 \<le> r \<and> r \<le> 57343)"
  shows "0 \<le> r div 4096" "r div 4096 \<le> 15"
    "0 \<le> r div 64 mod 64" "r div 64 mod 64 \<le> 63" "0 \<le> r mod 64" "r mod 64 \<le> 63"
    "r div 4096 = 0 \<longrightarrow> 32 \<le> r div 64 mod 64"
    "r div 4096 = 13 \<longrightarrow> r div 64 mod 64 \<le> 31"
    "r div 4096 * 4096 + r div 64 mod 64 * 64 + r mod 64 = r"
proof -
  define q where "q = r div 64"
  have q: "r = q * 64 + r mod 64" "0 \<le> r mod 64" "r mod 64 \<le> 63"
    by (simp_all add: q_def)
  have a: "r div 4096 = q div 64"
    by (simp add: q_def zdiv_zmult2_eq)
  have qr: "32 \<le> q" "q \<le> 1023" "\<not> (864 \<le> q \<and> q \<le> 895)"
    using assms q by linarith+
  have q2: "q = q div 64 * 64 + q mod 64" "0 \<le> q mod 64" "q mod 64 \<le> 63"
    by simp_all
  show "0 \<le> r mod 64" "r mod 64 \<le> 63" by simp_all
  show "0 \<le> r div 64 mod 64" "r div 64 mod 64 \<le> 63" by simp_all
  show "0 \<le> r div 4096" "r div 4096 \<le> 15"
    unfolding a using qr q2 by linarith+
  show "r div 4096 = 0 \<longrightarrow> 32 \<le> r div 64 mod 64"
    unfolding a q_def [symmetric] using qr q2 by linarith
  show "r div 4096 = 13 \<longrightarrow> r div 64 mod 64 \<le> 31"
    unfolding a q_def [symmetric] using qr q2 by linarith
  show "r div 4096 * 4096 + r div 64 mod 64 * 64 + r mod 64 = r"
    unfolding a q_def [symmetric] using q q2 by linarith
qed

lemma enc4_parts:
  fixes r :: int
  assumes "65536 \<le> r" "r \<le> 1114111"
  shows "0 \<le> r div 262144" "r div 262144 \<le> 4"
    "0 \<le> r div 4096 mod 64" "r div 4096 mod 64 \<le> 63"
    "0 \<le> r div 64 mod 64" "r div 64 mod 64 \<le> 63" "0 \<le> r mod 64" "r mod 64 \<le> 63"
    "r div 262144 = 0 \<longrightarrow> 16 \<le> r div 4096 mod 64"
    "r div 262144 = 4 \<longrightarrow> r div 4096 mod 64 \<le> 15"
    "r div 262144 * 262144 + r div 4096 mod 64 * 4096 + r div 64 mod 64 * 64 + r mod 64 = r"
proof -
  define q where "q = r div 64"
  define p where "p = q div 64"
  have q: "r = q * 64 + r mod 64" "0 \<le> r mod 64" "r mod 64 \<le> 63"
    by (simp_all add: q_def)
  have p: "q = p * 64 + q mod 64" "0 \<le> q mod 64" "q mod 64 \<le> 63"
    by (simp_all add: p_def)
  have b: "r div 4096 = p"
    by (simp add: p_def q_def zdiv_zmult2_eq)
  have a: "r div 262144 = p div 64"
    by (simp add: p_def q_def zdiv_zmult2_eq)
  have pr: "16 \<le> p" "p \<le> 271"
    using assms q p by linarith+
  have p2: "p = p div 64 * 64 + p mod 64" "0 \<le> p mod 64" "p mod 64 \<le> 63"
    by simp_all
  show "0 \<le> r mod 64" "r mod 64 \<le> 63" by simp_all
  show "0 \<le> r div 64 mod 64" "r div 64 mod 64 \<le> 63" by simp_all
  show "0 \<le> r div 4096 mod 64" "r div 4096 mod 64 \<le> 63" by simp_all
  show "0 \<le> r div 262144" "r div 262144 \<le> 4"
    unfolding a using pr p2 by linarith+
  show "r div 262144 = 0 \<longrightarrow> 16 \<le> r div 4096 mod 64"
    unfolding a b using pr p2 by linarith
  show "r div 262144 = 4 \<longrightarrow> r div 4096 mod 64 \<le> 15"
    unfolding a b using pr p2 by linarith
  show "r div 262144 * 262144 + r div 4096 mod 64 * 4096 + r div 64 mod 64 * 64 + r mod 64 = r"
    unfolding a b q_def [symmetric] using q p p2 by linarith
qed

text \<open>The decoder on each kind of sequence.\<close>

lemma Decode1:
  assumes "(of_char c :: int) < 128"
  shows "DecodeRuneInString (c # cs) = (of_char c, 1)"
  using assms by (simp add: Let_def)

lemma DecodeInvalid:
  assumes "128 \<le> (of_char c :: int)" "(of_char c :: int) < 194 \<or> 244 < (of_char c :: int)"
  shows "DecodeRuneInString (c # cs) = (RuneError, 1)"
  using assms by (auto simp: Let_def)

lemma DecodeShort:
  assumes "194 \<le> (of_char c :: int)" "(of_char c :: int) \<le> 244"
    "length (c # cs) < sequenceSize (of_char c)"
  shows "DecodeRuneInString (c # cs) = (RuneError, 1)"
  using assms by (simp add: Let_def)

lemma Decode2:
  assumes "(of_char c0 :: int) = 192 + a" "(of_char c1 :: int) = 128 + b"
    and "2 \<le> a" "a \<le> 31" "0 \<le> b" "b \<le> 63"
  shows "DecodeRuneInString (c0 # c1 # rest) = (a * 64 + b, 2)"
proof -
  have m: "(192 + a) mod 32 = a" "(128 + b) mod 64 = b"
    using assms(3-6) by (simp_all add: mod_shift)
  have sz: "sequenceSize (192 + a) = 2"
    using assms(3,4) by (simp add: sequenceSize_def)
  have lo: "acceptLo (192 + a) = 128" and hi: "acceptHi (192 + a) = 191"
    using assms(3,4) by (simp_all add: acceptLo_def acceptHi_def)
  show ?thesis
    using assms by (simp add: Let_def m sz lo hi)
qed

lemma Decode3:
  assumes "(of_char c0 :: int) = 224 + a" "(of_char c1 :: int) = 128 + b"
    "(of_char c2 :: int) = 128 + c"
    and "0 \<le> a" "a \<le> 15" "0 \<le> b" "b \<le> 63" "0 \<le> c" "c \<le> 63"
    and "a = 0 \<longrightarrow> 32 \<le> b" "a = 13 \<longrightarrow> b \<le> 31"
  shows "DecodeRuneInString (c0 # c1 # c2 # rest) = (a * 4096 + b * 64 + c, 3)"
proof -
  have m: "(224 + a) mod 16 = a" "(128 + b) mod 64 = b" "(128 + c) mod 64 = c"
    using assms(4-9) by (simp_all add: mod_shift)
  have sz: "sequenceSize (224 + a) = 3"
    using assms(4,5) by (simp add: sequenceSize_def)
  have lo: "acceptLo (224 + a) \<le> 128 + b"
    using assms(4-7,10) by (simp add: acceptLo_def)
  have hi: "128 + b \<le> acceptHi (224 + a)"
    using assms(4-7,11) by (simp add: acceptHi_def)
  show ?thesis
    using assms(1-9) lo hi by (simp add: Let_def m sz)
qed

lemma Decode4:
  assumes "(of_char c0 :: int) = 240 + a" "(of_char c1 :: int) = 128 + b"
    "(of_char c2 :: int) = 128 + c" "(of_char c3 :: int) = 128 + d"
    and "0 \<le> a" "a \<le> 4" "0 \<le> b" "b \<le> 63" "0 \<le> c" "c \<le> 63" "0 \<le> d" "d \<le> 63"
    and "a = 0 \<longrightarrow> 16 \<le> b" "a = 4 \<longrightarrow> b \<le> 15"
  shows "DecodeRuneInString (c0 # c1 # c2 # c3 # rest)
           = (a * 262144 + b * 4096 + c * 64 + d, 4)"
proof -
  have m: "(240 + a) mod 8 = a" "(128 + b) mod 64 = b" "(128 + c) mod 64 = c"
    "(128 + d) mod 64 = d"
    using assms(5-12) by (simp_all add: mod_shift)
  have sz: "sequenceSize (240 + a) = 4"
    using assms(5,6) by (simp add: sequenceSize_def)
  have lo: "acceptLo (240 + a) \<le> 128 + b"
    using assms(5-8,13) by (simp add: acceptLo_def)
  have hi: "128 + b \<le> acceptHi (240 + a)"
    using assms(5-8,14) by (simp add: acceptHi_def)
  show ?thesis
    using assms(1-12) lo hi by (simp add: Let_def m sz)
qed


text \<open>Encoding a rune and reading it back; reading a cut encoding.\<close>

lemma runes_Cons:
  "DecodeRuneInString (c # cs) = (x, n) \<Longrightarrow> runes (c # cs) = x # runes (drop (n - 1) cs)"
  by simp

lemma of_char_char_of_int:
  "0 \<le> x \<Longrightarrow> x < 256 \<Longrightarrow> (of_char (char_of (x::int)) :: int) = x"
  by simp

lemma runes_ascii:
  assumes "0 \<le> r" "r \<le> 127"
  shows "runes (char_of r # rest) = r # runes rest"
proof -
  have v: "(of_char (char_of r) :: int) = r"
    using assms by (simp add: of_char_char_of_int)
  have "DecodeRuneInString (char_of r # rest) = (r, 1)"
    using Decode1 [of "char_of r" rest] v assms by simp
  from runes_Cons [OF this] show ?thesis by simp
qed

lemma runes_two:
  assumes "128 \<le> r" "r \<le> 2047"
  shows "runes (char_of (192 + r div 64) # char_of (128 + r mod 64) # rest) = r # runes rest"
proof -
  note p = enc2_parts [OF assms]
  have v0: "(of_char (char_of (192 + r div 64)) :: int) = 192 + r div 64"
    using p by (simp add: of_char_char_of_int)
  have v1: "(of_char (char_of (128 + r mod 64)) :: int) = 128 + r mod 64"
    using p by (simp add: of_char_char_of_int)
  have "DecodeRuneInString (char_of (192 + r div 64) # char_of (128 + r mod 64) # rest)
      = (r div 64 * 64 + r mod 64, 2)"
    by (rule Decode2 [OF v0 v1 p(1-4)])
  from runes_Cons [OF this] show ?thesis by (simp add: p(5))
qed

lemma runes_three:
  assumes "2048 \<le> r" "r \<le> 65535" "\<not> (55296 \<le> r \<and> r \<le> 57343)"
  shows "runes (encode3 r @ rest) = r # runes rest"
proof -
  note p = enc3_parts [OF assms]
  have v0: "(of_char (char_of (224 + r div 4096)) :: int) = 224 + r div 4096"
    using p(1,2) by (simp add: of_char_char_of_int)
  have v1: "(of_char (char_of (128 + r div 64 mod 64)) :: int) = 128 + r div 64 mod 64"
    using p(3,4) by (simp add: of_char_char_of_int)
  have v2: "(of_char (char_of (128 + r mod 64)) :: int) = 128 + r mod 64"
    using p(5,6) by (simp add: of_char_char_of_int)
  have "DecodeRuneInString (char_of (224 + r div 4096) # char_of (128 + r div 64 mod 64)
          # char_of (128 + r mod 64) # rest)
      = (r div 4096 * 4096 + r div 64 mod 64 * 64 + r mod 64, 3)"
    by (rule Decode3 [OF v0 v1 v2 p(1-8)])
  from runes_Cons [OF this] show ?thesis
    by (simp add: p(9) encode3_def)
qed

lemma runes_four:
  assumes "65536 \<le> r" "r \<le> 1114111"
  shows "runes (char_of (240 + r div 262144) # char_of (128 + r div 4096 mod 64)
                # char_of (128 + r div 64 mod 64) # char_of (128 + r mod 64) # rest)
         = r # runes rest"
proof -
  note p = enc4_parts [OF assms]
  have v0: "(of_char (char_of (240 + r div 262144)) :: int) = 240 + r div 262144"
    using p(1,2) by (simp add: of_char_char_of_int)
  have v1: "(of_char (char_of (128 + r div 4096 mod 64)) :: int) = 128 + r div 4096 mod 64"
    using p(3,4) by (simp add: of_char_char_of_int)
  have v2: "(of_char (char_of (128 + r div 64 mod 64)) :: int) = 128 + r div 64 mod 64"
    using p(5,6) by (simp add: of_char_char_of_int)
  have v3: "(of_char (char_of (128 + r mod 64)) :: int) = 128 + r mod 64"
    using p(7,8) by (simp add: of_char_char_of_int)
  have "DecodeRuneInString (char_of (240 + r div 262144) # char_of (128 + r div 4096 mod 64)
          # char_of (128 + r div 64 mod 64) # char_of (128 + r mod 64) # rest)
      = (r div 262144 * 262144 + r div 4096 mod 64 * 4096 + r div 64 mod 64 * 64 + r mod 64, 4)"
    by (rule Decode4 [OF v0 v1 v2 v3 p(1-10)])
  from runes_Cons [OF this] show ?thesis
    by (simp add: p(11))
qed

lemma runes_EncodeRune: "runes (EncodeRune r @ rest) = written_rune r # runes rest"
proof -
  consider (ascii) "0 \<le> r" "r \<le> 127"
    | (two) "128 \<le> r" "r \<le> 2047"
    | (invalid) "r < 0 \<or> 1114111 < r \<or> (55296 \<le> r \<and> r \<le> 57343)"
    | (three) "2048 \<le> r" "r \<le> 65535" "\<not> (55296 \<le> r \<and> r \<le> 57343)"
    | (four) "65536 \<le> r" "r \<le> 1114111"
    by linarith
  then show ?thesis
  proof cases
    case ascii
    then show ?thesis
      using runes_ascii [of r rest] by (simp add: EncodeRune_def written_rune_def)
  next
    case two
    then show ?thesis
      using runes_two [of r rest] by (simp add: EncodeRune_def written_rune_def)
  next
    case invalid
    have "runes (encode3 RuneError @ rest) = RuneError # runes rest"
      by (rule runes_three) (simp_all add: RuneError_def)
    with invalid show ?thesis
      by (auto simp: EncodeRune_def written_rune_def)
  next
    case three
    have e: "EncodeRune r = encode3 r" and w: "written_rune r = r"
      using three by (auto simp: EncodeRune_def written_rune_def)
    show ?thesis
      unfolding e w by (rule runes_three [OF three])
  next
    case four
    then show ?thesis
      using runes_four [of r rest] by (simp add: EncodeRune_def written_rune_def)
  qed
qed

lemma runes_continuations:
  assumes "\<forall>c\<in>set cs. 128 \<le> (of_char c :: int) \<and> (of_char c :: int) \<le> 191"
  shows "set (runes cs) \<subseteq> {RuneError}"
  using assms
proof (induction cs)
  case Nil
  show ?case by simp
next
  case (Cons c cs)
  have "DecodeRuneInString (c # cs) = (RuneError, 1)"
    using Cons.prems by (intro DecodeInvalid) simp_all
  from runes_Cons [OF this] show ?case
    using Cons by simp
qed

lemma runes_short:
  assumes "194 \<le> (of_char c :: int)" "(of_char c :: int) \<le> 244"
    and "length (c # cs) < sequenceSize (of_char c)"
    and "\<forall>x\<in>set cs. 128 \<le> (of_char x :: int) \<and> (of_char x :: int) \<le> 191"
  shows "set (runes (c # cs)) \<subseteq> {RuneError}"
proof -
  have "DecodeRuneInString (c # cs) = (RuneError, 1)"
    by (rule DecodeShort [OF assms(1-3)])
  from runes_Cons [OF this] show ?thesis
    using runes_continuations [OF assms(4)] by simp
qed

lemma shapeI:
  assumes "e = c # cs" "194 \<le> (of_char c :: int)" "(of_char c :: int) \<le> 244"
    "Suc (length cs) = sequenceSize (of_char c)"
    "\<forall>x\<in>set cs. 128 \<le> (of_char x :: int) \<and> (of_char x :: int) \<le> 191"
  shows "(\<exists>c. e = [c])
   \<or> (\<exists>c cs. e = c # cs \<and> 194 \<le> (of_char c :: int) \<and> (of_char c :: int) \<le> 244
           \<and> Suc (length cs) = sequenceSize (of_char c)
           \<and> (\<forall>x\<in>set cs. 128 \<le> (of_char x :: int) \<and> (of_char x :: int) \<le> 191))"
  using assms by blast

lemma continuation_byte:
  assumes "0 \<le> (x::int)" "x \<le> 63"
  shows "128 \<le> (of_char (char_of (128 + x)) :: int) \<and> (of_char (char_of (128 + x)) :: int) \<le> 191"
proof -
  have "(of_char (char_of (128 + x)) :: int) = 128 + x"
    using assms by (simp add: of_char_char_of_int)
  then show ?thesis using assms by linarith
qed

lemma encode3_shape:
  assumes "2048 \<le> r" "r \<le> 65535" "\<not> (55296 \<le> r \<and> r \<le> 57343)"
  shows "(\<exists>c. encode3 r = [c])
   \<or> (\<exists>c cs. encode3 r = c # cs \<and> 194 \<le> (of_char c :: int) \<and> (of_char c :: int) \<le> 244
           \<and> Suc (length cs) = sequenceSize (of_char c)
           \<and> (\<forall>x\<in>set cs. 128 \<le> (of_char x :: int) \<and> (of_char x :: int) \<le> 191))"
proof (rule shapeI)
  note p = enc3_parts [OF assms]
  let ?c = "char_of (224 + r div 4096) :: char"
  let ?cs = "[char_of (128 + r div 64 mod 64), char_of (128 + r mod 64)] :: string"
  have v0: "(of_char ?c :: int) = 224 + r div 4096"
    using p(1,2) by (simp add: of_char_char_of_int)
  show "encode3 r = ?c # ?cs"
    by (simp only: encode3_def)
  show "194 \<le> (of_char ?c :: int)" "(of_char ?c :: int) \<le> 244"
    unfolding v0 using p(1,2) by linarith+
  have "sequenceSize (224 + r div 4096) = 3"
    using p(1,2) by (simp add: sequenceSize_def)
  then show "Suc (length ?cs) = sequenceSize (of_char ?c)"
    unfolding v0 by simp
  show "\<forall>x\<in>set ?cs. 128 \<le> (of_char x :: int) \<and> (of_char x :: int) \<le> 191"
    using continuation_byte [OF p(3,4)] continuation_byte [OF p(5,6)]
    by (simp only: list.set ball_simps insert_iff empty_iff; blast?)
qed

lemma EncodeRune_shape:
  "(\<exists>c. EncodeRune r = [c])
   \<or> (\<exists>c cs. EncodeRune r = c # cs \<and> 194 \<le> (of_char c :: int) \<and> (of_char c :: int) \<le> 244
           \<and> Suc (length cs) = sequenceSize (of_char c)
           \<and> (\<forall>x\<in>set cs. 128 \<le> (of_char x :: int) \<and> (of_char x :: int) \<le> 191))"
proof -
  consider (ascii) "0 \<le> r" "r \<le> 127"
    | (two) "128 \<le> r" "r \<le> 2047"
    | (invalid) "r < 0 \<or> 1114111 < r \<or> (55296 \<le> r \<and> r \<le> 57343)"
    | (three) "2048 \<le> r" "r \<le> 65535" "\<not> (55296 \<le> r \<and> r \<le> 57343)"
    | (four) "65536 \<le> r" "r \<le> 1114111"
    by linarith
  then show ?thesis
  proof cases
    case ascii
    then have "EncodeRune r = [char_of r]"
      by (simp add: EncodeRune_def)
    then show ?thesis by blast
  next
    case two
    note p = enc2_parts [OF two]
    let ?c = "char_of (192 + r div 64) :: char"
    let ?cs = "[char_of (128 + r mod 64)] :: string"
    have v0: "(of_char ?c :: int) = 192 + r div 64"
      using p by (simp add: of_char_char_of_int)
    show ?thesis
    proof (rule shapeI)
      show "EncodeRune r = ?c # ?cs"
        using two by (simp add: EncodeRune_def)
      show "194 \<le> (of_char ?c :: int)" "(of_char ?c :: int) \<le> 244"
        unfolding v0 using p(1,2) by linarith+
      have "sequenceSize (192 + r div 64) = 2"
        using p(1,2) by (simp add: sequenceSize_def)
      then show "Suc (length ?cs) = sequenceSize (of_char ?c)"
        unfolding v0 by simp
      show "\<forall>x\<in>set ?cs. 128 \<le> (of_char x :: int) \<and> (of_char x :: int) \<le> 191"
        using continuation_byte [OF p(3,4)]
        by (simp only: list.set ball_simps insert_iff empty_iff; blast?)
    qed
  next
    case invalid
    have e: "EncodeRune r = encode3 RuneError"
      using invalid by (auto simp: EncodeRune_def)
    have "2048 \<le> RuneError" "RuneError \<le> 65535"
      "\<not> (55296 \<le> RuneError \<and> RuneError \<le> 57343)"
      by (simp_all add: RuneError_def)
    from encode3_shape [OF this] show ?thesis
      unfolding e .
  next
    case three
    have e: "EncodeRune r = encode3 r"
      using three by (auto simp: EncodeRune_def)
    from encode3_shape [OF three] show ?thesis
      unfolding e .
  next
    case four
    note p = enc4_parts [OF four]
    let ?c = "char_of (240 + r div 262144) :: char"
    let ?cs = "[char_of (128 + r div 4096 mod 64), char_of (128 + r div 64 mod 64),
                char_of (128 + r mod 64)] :: string"
    have v0: "(of_char ?c :: int) = 240 + r div 262144"
      using p(1,2) by (simp add: of_char_char_of_int)
    show ?thesis
    proof (rule shapeI)
      show "EncodeRune r = ?c # ?cs"
        using four by (simp add: EncodeRune_def)
      show "194 \<le> (of_char ?c :: int)" "(of_char ?c :: int) \<le> 244"
        unfolding v0 using p(1,2) by linarith+
      have "sequenceSize (240 + r div 262144) = 4"
        using p(1,2) by (simp add: sequenceSize_def)
      then show "Suc (length ?cs) = sequenceSize (of_char ?c)"
        unfolding v0 by simp
      show "\<forall>x\<in>set ?cs. 128 \<le> (of_char x :: int) \<and> (of_char x :: int) \<le> 191"
        using continuation_byte [OF p(3,4)] continuation_byte [OF p(5,6)]
          continuation_byte [OF p(7,8)]
        by (simp only: list.set ball_simps insert_iff empty_iff; blast?)
    qed
  qed
qed

lemma runes_prefix:
  assumes "n < length (EncodeRune r)"
  shows "set (runes (take n (EncodeRune r))) \<subseteq> {RuneError}"
proof (cases n)
  case 0
  then show ?thesis by simp
next
  case (Suc m)
  from EncodeRune_shape [of r] show ?thesis
  proof (elim disjE exE conjE)
    fix c
    assume "EncodeRune r = [c]"
    with assms Suc show ?thesis by simp
  next
    fix c cs
    assume e: "EncodeRune r = c # cs"
      and lead: "194 \<le> (of_char c :: int)" "(of_char c :: int) \<le> 244"
      and sz: "Suc (length cs) = sequenceSize (of_char c)"
      and conts: "\<forall>x\<in>set cs. 128 \<le> (of_char x :: int) \<and> (of_char x :: int) \<le> 191"
    have t: "take n (EncodeRune r) = c # take m cs"
      using e Suc by simp
    have len: "length (c # take m cs) < sequenceSize (of_char c)"
      using assms e Suc sz by simp
    have c2: "\<forall>x\<in>set (take m cs). 128 \<le> (of_char x :: int) \<and> (of_char x :: int) \<le> 191"
      using conts by (meson in_set_takeD)
    show ?thesis
      unfolding t by (rule runes_short [OF lead len c2])
  qed
qed

lemma runes_take_concat:
  "set (runes (take n (concat (map EncodeRune rs)))) \<subseteq> written_rune ` set rs \<union> {RuneError}"
proof (induction rs arbitrary: n)
  case Nil
  show ?case by simp
next
  case (Cons r rs)
  show ?case
  proof (cases "n < length (EncodeRune r)")
    case True
    then have eq: "take n (concat (map EncodeRune (r # rs))) = take n (EncodeRune r)"
      by simp
    have "set (runes (take n (EncodeRune r))) \<subseteq> {RuneError}"
      by (rule runes_prefix [OF True])
    then have "set (runes (take n (concat (map EncodeRune (r # rs))))) \<subseteq> {RuneError}"
      by (simp only: eq)
    then show ?thesis by blast
  next
    case False
    then have "take n (concat (map EncodeRune (r # rs)))
        = EncodeRune r @ take (n - length (EncodeRune r)) (concat (map EncodeRune rs))"
      by simp
    then have "runes (take n (concat (map EncodeRune (r # rs))))
        = written_rune r # runes (take (n - length (EncodeRune r)) (concat (map EncodeRune rs)))"
      by (simp only: runes_EncodeRune)
    then have "set (runes (take n (concat (map EncodeRune (r # rs)))))
        = insert (written_rune r)
            (set (runes (take (n - length (EncodeRune r)) (concat (map EncodeRune rs)))))"
      by (simp only: list.set)
    then show ?thesis
      using Cons.IH [of "n - length (EncodeRune r)"] by auto
  qed
qed

lemma concat_map_filter:
  "concat (map (\<lambda>c. if Q c then f c else []) xs) = concat (map f (filter Q xs))"
  by (induction xs) simp_all

lemma strings_Map_filter:
  "strings_Map (\<lambda>r. if \<not> P r then - 1 else r) s
     = concat (map EncodeRune (filter (\<lambda>c. P c \<and> 0 \<le> c) (runes s)))"
proof -
  have "(\<lambda>c. let r = (if \<not> P c then - 1 else c) in if 0 \<le> r then EncodeRune r else [])
      = (\<lambda>c. if P c \<and> 0 \<le> c then EncodeRune c else [])"
    by (auto simp: Let_def)
  then show ?thesis
    by (simp add: strings_Map_def concat_map_filter)
qed

text \<open>
  C7. For every input string, the result of \<open>FilterChat\<close> is at most 254 bytes long
  and every rune of it, as \<open>range\<close> yields them, is printable. The cut at 254 bytes can
  fall inside a multi-byte rune; the bytes left of that rune decode as \<open>RuneError\<close>
  (\<open>U+FFFD\<close>), and so do the bytes that \<open>strings.Map\<close> writes for invalid input. The
  hypothesis is the one fact used about the table behind \<open>unicode.IsPrint\<close>: it accepts
  \<open>U+FFFD\<close>, a symbol of category So.
\<close>

theorem FilterChat_printable_and_bounded:
  assumes "IsPrint RuneError"
  shows "length (FilterChat Replace IsPrint s) \<le> 254
       \<and> (\<forall>r\<in>set (runes (FilterChat Replace IsPrint s)). IsPrint r)"
proof -
  define kept where "kept = filter (\<lambda>c. IsPrint c \<and> 0 \<le> c) (runes (Replace s))"
  define m where "m = concat (map EncodeRune kept)"
  have mapped: "strings_Map (\<lambda>r. if \<not> IsPrint r then - 1 else r) (Replace s) = m"
    unfolding m_def kept_def by (rule strings_Map_filter)
  have f: "FilterChat Replace IsPrint s = (if length m > 254 then take 254 m else m)"
    by (simp only: FilterChat_def Let_def mapped)
  have len: "length (FilterChat Replace IsPrint s) \<le> 254"
    unfolding f by simp
  obtain n where n: "FilterChat Replace IsPrint s = take n m"
  proof (cases "length m > 254")
    case True
    with f have "FilterChat Replace IsPrint s = take 254 m" by simp
    then show ?thesis by (rule that)
  next
    case False
    with f have "FilterChat Replace IsPrint s = take (length m) m" by simp
    then show ?thesis by (rule that)
  qed
  have kept_printable: "IsPrint c" if "c \<in> set kept" for c
    using that unfolding kept_def by simp
  have "IsPrint r" if r: "r \<in> set (runes (take n m))" for r
  proof -
    have "set (runes (take n m)) \<subseteq> written_rune ` set kept \<union> {RuneError}"
      unfolding m_def by (rule runes_take_concat)
    with r have "r \<in> written_rune ` set kept \<or> r = RuneError"
      by blast
    then show ?thesis
    proof
      assume "r \<in> written_rune ` set kept"
      then obtain c where c: "c \<in> set kept" and rc: "r = written_rune c"
        by blast
      have "IsPrint c" by (rule kept_printable [OF c])
      then show ?thesis
        unfolding rc written_rune_def using assms by simp
    next
      assume "r = RuneError"
      then show ?thesis using assms by simp
    qed
  qed
  then have "\<forall>r\<in>set (runes (FilterChat Replace IsPrint s)). IsPrint r"
    unfolding n by blast
  with len show ?thesis by blast
qed


text \<open>
  A run of C7: one hundred euro signs (300 bytes) are cut to 254 bytes, inside the 85th
  sign.
\<close>

theorem FilterChat_printable_and_bounded_witness:
  "(\<lambda>r. 32 \<le> r \<and> r \<noteq> 127) RuneError
   \<and> length (FilterChat (\<lambda>s. s) (\<lambda>r. 32 \<le> r \<and> r \<noteq> 127)
               (concat (replicate 100 [CHR 0xE2, CHR 0x82, CHR 0xAC]))) \<le> 254
   \<and> list_all (\<lambda>r. 32 \<le> r \<and> r \<noteq> 127)
        (runes (FilterChat (\<lambda>s. s) (\<lambda>r. 32 \<le> r \<and> r \<noteq> 127)
                  (concat (replicate 100 [CHR 0xE2, CHR 0x82, CHR 0xAC]))))"
proof -
  have h: "(\<lambda>r. 32 \<le> r \<and> r \<noteq> 127) RuneError"
    by (simp add: RuneError_def)
  show ?thesis
    using h FilterChat_printable_and_bounded
              [of "\<lambda>r. 32 \<le> r \<and> r \<noteq> 127" "\<lambda>s. s"
                  "concat (replicate 100 [CHR 0xE2, CHR 0x82, CHR 0xAC])", OF h]
    unfolding list_all_iff by blast
qed

text \<open>The first two bytes of a euro sign decode as two \<open>RuneError\<close>s.\<close>

lemma truncated_rune_example:
  "runes (take 2 (EncodeRune 0x20AC)) = [RuneError, RuneError]"
  by (simp add: EncodeRune_def encode3_def sequenceSize_def Let_def)

end
